theory Spec2Isabelle
  imports Complex_Main "HOL-Library.Sublist" "HOL-Library.AList"
begin

section \<open>Python values, exceptions and strings\<close>

text \<open>
  The exceptions the modelled functions can raise. \<open>ArchanError\<close> is the repository's
  own exception class (\<open>archan.errors\<close>), raised with a message; the others are Python's
  built-in exceptions for an index out of range, \<open>max\<close> of an empty list, a division
  by zero and a call with an unexpected keyword argument.
\<close>

datatype error =
    ArchanError string
  | IndexError
  | ValueError
  | ZeroDivisionError
  | TypeError

text \<open>Sequencing of computations that may raise: the first exception aborts the rest.\<close>

fun and_then :: "error + 'a \<Rightarrow> ('a \<Rightarrow> error + 'b) \<Rightarrow> error + 'b" where
  "and_then (Inl e) f = Inl e"
| "and_then (Inr x) f = f x"

text \<open>\<open>xs[i]\<close> for a non-negative index: IndexError out of range.\<close>

definition getitem :: "'a list \<Rightarrow> nat \<Rightarrow> error + 'a" where
  "getitem xs i = (if i < length xs then Inr (xs ! i) else Inl IndexError)"

text \<open>\<open>m[i][j]\<close>: the row is read first, then the cell.\<close>

definition getitem2 :: "'a list list \<Rightarrow> nat \<Rightarrow> nat \<Rightarrow> error + 'a" where
  "getitem2 m i j = and_then (getitem m i) (\<lambda>row. getitem row j)"

text \<open>\<open>xs[i] = v\<close> and \<open>m[i][j] = v\<close>: IndexError out of range, otherwise the updated list.\<close>

definition setitem :: "'a list \<Rightarrow> nat \<Rightarrow> 'a \<Rightarrow> error + 'a list" where
  "setitem xs i v = (if i < length xs then Inr (xs[i := v]) else Inl IndexError)"

definition setitem2 :: "'a list list \<Rightarrow> nat \<Rightarrow> nat \<Rightarrow> 'a \<Rightarrow> error + 'a list list" where
  "setitem2 m i j v =
     and_then (getitem m i) (\<lambda>row. and_then (setitem row j v) (\<lambda>row'. Inr (m[i := row'])))"

text \<open>
  A \<open>for\<close> loop over a list of indices: the body maps the loop variable and the state
  to the next state, and an exception in the body leaves the loop.
\<close>

fun for_each :: "'i list \<Rightarrow> ('i \<Rightarrow> 's \<Rightarrow> error + 's) \<Rightarrow> 's \<Rightarrow> error + 's" where
  "for_each [] body s = Inr s"
| "for_each (k # ks) body s = and_then (body k s) (for_each ks body)"

text \<open>\<open>'%s' % n\<close> for an integer: its decimal digits, with a minus sign when negative.\<close>

definition digit_char :: "nat \<Rightarrow> char" where
  "digit_char d = char_of (48 + d)"

fun str_nat :: "nat \<Rightarrow> string" where
  "str_nat n = (if n < 10 then [digit_char n] else str_nat (n div 10) @ [digit_char (n mod 10)])"

declare str_nat.simps [simp del]

definition str_int :: "int \<Rightarrow> string" where
  "str_int i = (if i < 0 then CHR ''-'' # str_nat (nat (- i)) else str_nat (nat i))"

text \<open>\<open>sep.join(xs)\<close>.\<close>

fun join :: "string \<Rightarrow> string list \<Rightarrow> string" where
  "join sep [] = []"
| "join sep [x] = x"
| "join sep (x # y # ys) = x @ sep @ join sep (y # ys)"

text \<open>\<open>s.split(c)\<close> for a one-character separator: never empty, \<open>''.split('.') == ['']\<close>.\<close>

fun split :: "char \<Rightarrow> string \<Rightarrow> string list" where
  "split c [] = [[]]"
| "split c (x # xs) =
     (if x = c then [] # split c xs
      else (case split c xs of [] \<Rightarrow> [[x]] | w # ws \<Rightarrow> (x # w) # ws))"

text \<open>
  \<open>e.split('.')[0]\<close>, the top-level package of an entity name. The list \<open>split\<close>
  returns is never empty (lemma \<open>split_not_Nil\<close>), so the index 0 cannot raise.
\<close>

definition split0 :: "string \<Rightarrow> string" where
  "split0 e = (case split (CHR ''.'') e of [] \<Rightarrow> [] | w # ws \<Rightarrow> w)"

text \<open>\<open>s.startswith(p)\<close>.\<close>

definition startswith :: "string \<Rightarrow> string \<Rightarrow> bool" where
  "startswith s p = prefix p s"

text \<open>\<open>max(xs)\<close>: ValueError on an empty list.\<close>

fun max_list :: "int list \<Rightarrow> error + int" where
  "max_list [] = Inl ValueError"
| "max_list (x # xs) = Inr (fold max xs x)"

text \<open>\<open>xs.index(v)\<close>: the first position of \<open>v\<close>, ValueError when absent.\<close>

fun index :: "'a list \<Rightarrow> 'a \<Rightarrow> error + nat" where
  "index [] v = Inl ValueError"
| "index (x # xs) v = (if x = v then Inr 0 else and_then (index xs v) (\<lambda>k. Inr (Suc k)))"

text \<open>\<open>enumerate(xs)\<close>.\<close>

definition enumerate_list :: "'a list \<Rightarrow> (nat \<times> 'a) list" where
  "enumerate_list xs = zip [0..<length xs] xs"

text \<open>The newline character of \<open>'\n'.join(...)\<close>.\<close>

definition newline :: string where
  "newline = [CHR 0x0A]"

section \<open>The design structure matrix\<close>

text \<open>
  Modelled from the spec: the class \<open>DesignStructureMatrix\<close> (\<open>archan/dsm.py\<close>) is not
  among the sources; both \<open>criterion.py\<close> and \<open>checker.py\<close> only read its six category
  constants and its attributes \<open>categories\<close>, \<open>entities\<close>, \<open>dependency_matrix\<close> and
  \<open>size\<close>. The six constants are the constructors below; \<open>Other\<close> stands for any other
  value found in \<open>categories\<close>, which the generator rejects.
\<close>

datatype category =
    Framework
  | Core_lib
  | App_lib
  | App_module
  | Broker
  | Data
  | Other string

record dsm =
  categories :: "category list"
  entities :: "string list"
  dependency_matrix :: "int list list"
  dsm_size :: nat

text \<open>
  Modelled from the spec (section 3): \<open>categories\<close> and \<open>entities\<close> have \<open>size\<close>
  elements and the matrix is square of side \<open>size\<close>. The functions below do not check
  this; they raise IndexError where a read falls outside.
\<close>

definition wf_dsm :: "dsm \<Rightarrow> bool" where
  "wf_dsm d \<longleftrightarrow>
     length (categories d) = dsm_size d \<and>
     length (entities d) = dsm_size d \<and>
     length (dependency_matrix d) = dsm_size d \<and>
     list_all (\<lambda>row. length row = dsm_size d) (dependency_matrix d)"

definition known_category :: "category \<Rightarrow> bool" where
  "known_category c = (c = Framework \<or> c = Core_lib \<or> c = App_lib \<or> c = App_module \<or> c = Broker \<or> c = Data)"

section \<open>criterion.py: the mediation matrix\<close>

text \<open>
  The last two disjuncts of the tolerance conditions of \<open>_generate_mediation_matrix\<close>,
  \<open>ent[i].startswith(packages[j] + '.') or i == j\<close>, evaluated left to right.
\<close>

definition package_or_self :: "string list \<Rightarrow> string list \<Rightarrow> nat \<Rightarrow> nat \<Rightarrow> error + bool" where
  "package_or_self ent packages i j =
     and_then (getitem ent i) (\<lambda>ei.
     and_then (getitem packages j) (\<lambda>pj.
       Inr (startswith ei (pj @ ''.'') \<or> i = j)))"

text \<open>
  A branch \<open>if (cat[j] in allowed or ent[i].startswith(packages[j] + '.') or i == j)\<close>:
  the value stored in the cell, -1 when the condition holds and 0 otherwise.
\<close>

definition tolerated :: "category list \<Rightarrow> string list \<Rightarrow> string list \<Rightarrow> category list \<Rightarrow> nat \<Rightarrow> nat \<Rightarrow> error + int" where
  "tolerated cat ent packages allowed i j =
     and_then (getitem cat j) (\<lambda>cj.
       if cj \<in> set allowed then Inr (- 1)
       else and_then (package_or_self ent packages i j) (\<lambda>t. Inr (if t then - 1 else 0)))"

text \<open>The value the loop body of \<open>_generate_mediation_matrix\<close> stores in cell (i, j).\<close>

definition mediation_value :: "category list \<Rightarrow> string list \<Rightarrow> string list \<Rightarrow> nat \<Rightarrow> nat \<Rightarrow> error + int" where
  "mediation_value cat ent packages i j =
     and_then (getitem cat i) (\<lambda>ci.
       if ci = Framework then
         and_then (getitem cat j) (\<lambda>cj. Inr (if cj = Framework then - 1 else 0))
       else if ci = Core_lib then
         tolerated cat ent packages [Framework, Core_lib] i j
       else if ci = App_lib then
         tolerated cat ent packages [Framework, Core_lib, App_lib] i j
       else if ci = App_module then
         tolerated cat ent packages [Framework, Core_lib, App_lib, Broker, Data] i j
       else if ci = Broker then
         tolerated cat ent packages [App_module, Core_lib, Framework] i j
       else if ci = Data then
         and_then (getitem cat j) (\<lambda>cj. Inr (if cj = Framework \<or> i = j then - 1 else 0))
       else
         Inl (ArchanError (''Mediation matrix value NOT generated for '' @ str_nat i @ '':'' @ str_nat j)))"

definition generate_mediation_matrix :: "dsm \<Rightarrow> error + int list list" where
  "generate_mediation_matrix d =
     (let cat = categories d;
          ent = entities d;
          size = dsm_size d;
          packages = map split0 ent;
          mediation_matrix = replicate size (replicate size 0)
      in for_each [0..<size] (\<lambda>i.
           for_each [0..<size] (\<lambda>j m.
             and_then (mediation_value cat ent packages i j) (setitem2 m i j)))
         mediation_matrix)"

section \<open>criterion.py: the compliance comparison\<close>

text \<open>
  The body of the double loop of \<open>_matrices_compliance\<close>. The state is
  \<open>(discrepancy_found, message)\<close>. The condition reads \<open>complete_mediation_matrix[i][j]\<close>
  first and \<open>matrix[i][j]\<close> only when the expected value is 0 or 1.
\<close>

definition untolerated :: "dsm \<Rightarrow> int list list \<Rightarrow> nat \<Rightarrow> nat \<Rightarrow> bool \<times> string list \<Rightarrow> error + bool \<times> string list" where
  "untolerated d med i j s =
     and_then (getitem (entities d) i) (\<lambda>ei.
     and_then (getitem (entities d) j) (\<lambda>ej.
     and_then (getitem2 (dependency_matrix d) i j) (\<lambda>v.
     and_then (getitem2 med i j) (\<lambda>e.
       Inr (True, snd s @
         [''  Untolerated dependency at '' @ str_nat i @ '':'' @ str_nat j @ '' ('' @ ei @ '':'' @ ej
          @ ''): '' @ str_int v @ '' instead of '' @ str_int e])))))"

definition compliance_body :: "dsm \<Rightarrow> int list list \<Rightarrow> nat \<Rightarrow> nat \<Rightarrow> bool \<times> string list \<Rightarrow> error + bool \<times> string list" where
  "compliance_body d med i j s =
     and_then (getitem2 med i j) (\<lambda>e.
       if e = 0 then
         and_then (getitem2 (dependency_matrix d) i j) (\<lambda>v.
           if v > 0 then untolerated d med i j s else Inr s)
       else if e = 1 then
         and_then (getitem2 (dependency_matrix d) i j) (\<lambda>v.
           if v < 1 then untolerated d med i j s else Inr s)
       else Inr s)"

definition matrices_compliance :: "dsm \<Rightarrow> int list list \<Rightarrow> error + bool \<times> string" where
  "matrices_compliance d complete_mediation_matrix =
     (let matrix = dependency_matrix d;
          rows_dep_matrix = length matrix
      in and_then (getitem matrix 0) (\<lambda>row0.
         let cols_dep_matrix = length row0;
             rows_med_matrix = length complete_mediation_matrix
         in and_then (getitem complete_mediation_matrix 0) (\<lambda>med0.
         let cols_med_matrix = length med0
         in if rows_dep_matrix \<noteq> rows_med_matrix \<or> cols_dep_matrix \<noteq> cols_med_matrix then
              Inl (ArchanError ''Matrices are NOT compliant (number of rows/columns not equal)'')
            else
              and_then
                (for_each [0..<rows_dep_matrix] (\<lambda>i.
                   for_each [0..<cols_dep_matrix] (compliance_body d complete_mediation_matrix i))
                 (False, []))
                (\<lambda>(discrepancy_found, message).
                   Inr (\<not> discrepancy_found, join newline message)))))"

definition check_complete_mediation :: "dsm \<Rightarrow> error + bool \<times> string" where
  "check_complete_mediation d =
     and_then (generate_mediation_matrix d) (\<lambda>med_matrix. matrices_compliance d med_matrix)"

section \<open>criterion.py: the other checks\<close>

text \<open>
  The success value a check returns: \<open>True\<close>, \<open>False\<close>, \<open>None\<close>, or anything else
  (an integer or a string stand for the rest).
\<close>

datatype py_value = PyNone | PyBool bool | PyInt int | PyStr string

definition check_separation_of_privileges :: "dsm \<Rightarrow> error + py_value \<times> string" where
  "check_separation_of_privileges d = Inr (PyNone, [])"

definition check_least_privileges :: "dsm \<Rightarrow> error + py_value \<times> string" where
  "check_least_privileges d = Inr (PyNone, [])"

definition check_open_design :: "dsm \<Rightarrow> error + py_value \<times> string" where
  "check_open_design d = Inr (PyNone, [])"

definition check_code_clean :: "dsm \<Rightarrow> error + py_value \<times> string" where
  "check_code_clean d = Inr (PyNone, [])"

text \<open>The loop body of \<open>check_economy_of_mechanism\<close>; the state is \<open>dependency_number\<close>.\<close>

definition economy_body :: "dsm \<Rightarrow> nat \<Rightarrow> nat \<Rightarrow> int \<Rightarrow> error + int" where
  "economy_body d i j dependency_number =
     and_then (getitem (categories d) i) (\<lambda>ci.
       if ci \<in> {Framework, Core_lib} then Inr dependency_number
       else and_then (getitem (categories d) j) (\<lambda>cj.
         if cj \<in> {Framework, Core_lib} then Inr dependency_number
         else and_then (getitem2 (dependency_matrix d) i j) (\<lambda>v.
           Inr (if v > 0 then dependency_number + 1 else dependency_number))))"

definition economy_message :: "int \<Rightarrow> nat \<Rightarrow> int \<Rightarrow> string" where
  "economy_message dependency_number n simplicity_factor =
     join '' ''
       [''  Number of dependencies ('' @ str_int dependency_number @ '')'',
        ''> number of rows ('' @ str_nat n @ '')'',
        ''* simplicity factor ('' @ str_int simplicity_factor @ '') = ''
          @ str_int (int n * simplicity_factor)]"

definition check_economy_of_mechanism :: "dsm \<Rightarrow> int \<Rightarrow> error + bool \<times> string" where
  "check_economy_of_mechanism d simplicity_factor =
     (let size = dsm_size d
      in and_then
           (for_each [0..<size] (\<lambda>i. for_each [0..<size] (economy_body d i)) 0)
           (\<lambda>dependency_number.
              if dependency_number < int size * simplicity_factor then Inr (True, [])
              else Inr (False, economy_message dependency_number size simplicity_factor)))"

text \<open>
  The first loop of \<open>check_least_common_mechanism\<close>: for each column \<open>j\<close> a zero is
  appended to \<open>dependent_module_number\<close> and incremented once for every row \<open>i\<close> whose
  cell counts.
\<close>

definition common_body :: "dsm \<Rightarrow> nat \<Rightarrow> nat \<Rightarrow> int list \<Rightarrow> error + int list" where
  "common_body d j i dependent_module_number =
     and_then (getitem (categories d) i) (\<lambda>ci.
       if ci = Framework then Inr dependent_module_number
       else and_then (getitem (categories d) j) (\<lambda>cj.
         if cj = Framework then Inr dependent_module_number
         else and_then (getitem2 (dependency_matrix d) i j) (\<lambda>v.
           if v > 0 then
             and_then (getitem dependent_module_number j) (\<lambda>c.
               setitem dependent_module_number j (c + 1))
           else Inr dependent_module_number)))"

definition common_counts :: "dsm \<Rightarrow> error + int list" where
  "common_counts d =
     for_each [0..<dsm_size d] (\<lambda>j dependent_module_number.
       for_each [0..<dsm_size d] (common_body d j) (dependent_module_number @ [0])) []"

text \<open>The second loop: the counts of brokers and application libraries are set to 0.\<close>

definition common_exempt :: "dsm \<Rightarrow> int list \<Rightarrow> error + int list" where
  "common_exempt d =
     for_each (enumerate_list (categories d)) (\<lambda>(index, item) dependent_module_number.
       if item = Broker \<or> item = App_lib then setitem dependent_module_number index 0
       else Inr dependent_module_number)"

text \<open>
  The function has no \<open>from __future__ import division\<close>: under Python 3,
  \<open>dsm.size / independence_factor\<close> is the true quotient, modelled as a real number.
  Its rendering \<open>'%s' % (dsm.size / independence_factor)\<close> in the message is the
  parameter \<open>fmt\<close>: how Python prints a float is outside this model.
\<close>

definition common_message :: "(real \<Rightarrow> string) \<Rightarrow> string \<Rightarrow> int \<Rightarrow> nat \<Rightarrow> int \<Rightarrow> string" where
  "common_message fmt entity maximum n independence_factor =
     ''  Dependencies to '' @ entity @ '' ('' @ str_int maximum @ '') > matrix size (''
       @ str_nat n @ '') / independence factor ('' @ str_int independence_factor @ '') = ''
       @ fmt (real n / real_of_int independence_factor)"

definition check_least_common_mechanism :: "(real \<Rightarrow> string) \<Rightarrow> dsm \<Rightarrow> int \<Rightarrow> error + bool \<times> string" where
  "check_least_common_mechanism fmt d independence_factor =
     and_then (common_counts d) (\<lambda>counted.
     and_then (common_exempt d counted) (\<lambda>dependent_module_number.
     and_then (max_list dependent_module_number) (\<lambda>maximum.
       if independence_factor = 0 then Inl ZeroDivisionError
       else if real_of_int maximum \<le> real (dsm_size d) / real_of_int independence_factor then
         Inr (True, [])
       else
         and_then (index dependent_module_number maximum) (\<lambda>k.
         and_then (getitem (entities d) k) (\<lambda>entity.
           Inr (False, common_message fmt entity maximum (dsm_size d) independence_factor))))))"

text \<open>The loop body of \<open>check_layered_architecture\<close>; the state is
  \<open>(layered_architecture, messages)\<close>.\<close>

definition layered_message :: "string \<Rightarrow> string \<Rightarrow> string" where
  "layered_message source target =
     ''  Dependency from '' @ source @ '' to '' @ target @ '' breaks the layered architecture.''"

definition layered_body :: "dsm \<Rightarrow> nat \<Rightarrow> nat \<Rightarrow> bool \<times> string list \<Rightarrow> error + bool \<times> string list" where
  "layered_body d i j s =
     and_then (getitem (categories d) i) (\<lambda>ci.
       if ci = Broker then Inr s
       else and_then (getitem (categories d) j) (\<lambda>cj.
         if cj = Broker then Inr s
         else and_then (getitem (entities d) i) (\<lambda>ei.
              and_then (getitem (entities d) j) (\<lambda>ej.
                if split0 ei \<noteq> split0 ej then
                  and_then (getitem2 (dependency_matrix d) i j) (\<lambda>v.
                    if v > 0 then Inr (False, snd s @ [layered_message ei ej]) else Inr s)
                else Inr s))))"

definition check_layered_architecture :: "dsm \<Rightarrow> error + bool \<times> string" where
  "check_layered_architecture d =
     and_then
       (for_each [0..<dsm_size d - 1] (\<lambda>i.
          for_each [i + 1..<dsm_size d] (layered_body d i)) (True, []))
       (\<lambda>(layered_architecture, messages). Inr (layered_architecture, join newline messages))"

section \<open>criterion.py: the Criterion class\<close>

definition FAILED :: int where "FAILED = 0"
definition PASSED :: int where "PASSED = 1"
definition NOT_IMPLEMENTED :: int where "NOT_IMPLEMENTED = - 1"
definition IGNORED :: int where "IGNORED = - 2"

text \<open>
  Keyword arguments are a dictionary from names to values, kept as an association list.
  The attribute \<open>check\<close> is \<open>None\<close> when the object has no callable \<open>check\<close>
  (\<open>__init__\<close> sets it only when one is given).
\<close>

type_synonym kwargs = "(string \<times> int) list"

record 'a criterion =
  codename :: string
  title :: string
  description :: string
  hint :: string
  check :: "('a \<Rightarrow> kwargs \<Rightarrow> error + py_value \<times> string) option"
  kwargs :: kwargs

definition Criterion :: "string \<Rightarrow> string \<Rightarrow> string \<Rightarrow> string
    \<Rightarrow> ('a \<Rightarrow> kwargs \<Rightarrow> error + py_value \<times> string) option \<Rightarrow> kwargs \<Rightarrow> 'a criterion" where
  "Criterion codename' title' description' hint' check' kwargs' =
     \<lparr>codename = codename', title = title', description = description', hint = hint',
      check = check', kwargs = kwargs'\<rparr>"

text \<open>\<open>Criterion.__call__\<close>: \<open>kwargs.update(self.kwargs)\<close>, then the check.\<close>

definition call :: "'a criterion \<Rightarrow> 'a \<Rightarrow> kwargs \<Rightarrow> error + int \<times> string" where
  "call self args kwargs' =
     (let kwargs'' = AList.merge kwargs' (kwargs self)
      in case check self of
           Some f \<Rightarrow>
             and_then (f args kwargs'') (\<lambda>(success, message).
               if success = PyBool True then Inr (PASSED, message)
               else if success = PyBool False then Inr (FAILED, message)
               else Inr (NOT_IMPLEMENTED, message))
         | None \<Rightarrow> Inr (NOT_IMPLEMENTED, []))"

text \<open>
  Python's call \<open>f(dsm, **kwargs)\<close> of a function \<open>def f(dsm)\<close>, and of a function
  \<open>def f(dsm, name=dflt)\<close>: a keyword the function does not have is a TypeError.
\<close>

definition call_plain :: "(dsm \<Rightarrow> error + 'r) \<Rightarrow> dsm \<Rightarrow> kwargs \<Rightarrow> error + 'r" where
  "call_plain f d kw = (if kw = [] then f d else Inl TypeError)"

definition call_keyword :: "string \<Rightarrow> int \<Rightarrow> (dsm \<Rightarrow> int \<Rightarrow> error + 'r) \<Rightarrow> dsm \<Rightarrow> kwargs \<Rightarrow> error + 'r" where
  "call_keyword name dflt f d kw =
     (if list_all (\<lambda>(k, v). k = name) kw
      then f d (case map_of kw name of None \<Rightarrow> dflt | Some v \<Rightarrow> v)
      else Inl TypeError)"

text \<open>A check that returns \<open>(bool, message)\<close>, as a check returning any value.\<close>

definition as_value :: "error + bool \<times> string \<Rightarrow> error + py_value \<times> string" where
  "as_value r = and_then r (\<lambda>(success, message). Inr (PyBool success, message))"

text \<open>
  The criteria of the module. \<open>read_criterion\<close> reads the description from a file; it
  is the parameter \<open>rc\<close> here.
\<close>

definition COMPLETE_MEDIATION :: "(string \<Rightarrow> string) \<Rightarrow> dsm criterion" where
  "COMPLETE_MEDIATION rc =
     Criterion ''COMPLETE_MEDIATION'' ''Complete Mediation'' (rc ''complete_mediation'')
       ''Remove the dependencies or deviate them through a broker module.''
       (Some (\<lambda>d kw. as_value (call_plain check_complete_mediation d kw))) []"

definition ECONOMY_OF_MECHANISM :: "(string \<Rightarrow> string) \<Rightarrow> dsm criterion" where
  "ECONOMY_OF_MECHANISM rc =
     Criterion ''ECONOMY_OF_MECHANISM'' ''Economy Of Mechanism'' (rc ''economy_of_mechanism'')
       ''Reduce the number of dependencies in your own code or increase the simplicity factor.''
       (Some (\<lambda>d kw. as_value (call_keyword ''simplicity_factor'' 2 check_economy_of_mechanism d kw))) []"

definition SEPARATION_OF_PRIVILEGES :: "(string \<Rightarrow> string) \<Rightarrow> dsm criterion" where
  "SEPARATION_OF_PRIVILEGES rc =
     Criterion ''SEPARATION_OF_PRIVILEGES'' ''Separation Of Privileges''
       (rc ''separation_of_privileges'') [] (Some (call_plain check_separation_of_privileges)) []"

definition LEAST_PRIVILEGES :: "(string \<Rightarrow> string) \<Rightarrow> dsm criterion" where
  "LEAST_PRIVILEGES rc =
     Criterion ''LEAST_PRIVILEGES'' ''Least Privileges''
       (rc ''least_privileges'') [] (Some (call_plain check_least_privileges)) []"

definition LEAST_COMMON_MECHANISM :: "(real \<Rightarrow> string) \<Rightarrow> (string \<Rightarrow> string) \<Rightarrow> dsm criterion" where
  "LEAST_COMMON_MECHANISM fmt rc =
     Criterion ''LEAST_COMMON_MECHANISM'' ''Least Common Mechanism'' (rc ''least_common_mechanism'')
       ''Reduce number of modules having dependencies to the listed module.''
       (Some (\<lambda>d kw. as_value
          (call_keyword ''independence_factor'' 5 (check_least_common_mechanism fmt) d kw))) []"

definition LAYERED_ARCHITECTURE :: "(string \<Rightarrow> string) \<Rightarrow> dsm criterion" where
  "LAYERED_ARCHITECTURE rc =
     Criterion ''LAYERED_ARCHITECTURE'' ''Layered Architecture'' (rc ''layered_architecture'')
       ''Ensure that your applications are listed in the right order when building the DSM, or remove dependencies.''
       (Some (\<lambda>d kw. as_value (call_plain check_layered_architecture d kw))) []"

definition OPEN_DESIGN :: "(string \<Rightarrow> string) \<Rightarrow> dsm criterion" where
  "OPEN_DESIGN rc =
     Criterion ''OPEN_DESIGN'' ''Open Design'' (rc ''open_design'') []
       (Some (call_plain check_open_design)) []"

definition CODE_CLEAN :: "(string \<Rightarrow> string) \<Rightarrow> dsm criterion" where
  "CODE_CLEAN rc =
     Criterion ''CODE_CLEAN'' ''Code Clean'' (rc ''code_clean'') []
       (Some (call_plain check_code_clean)) []"

definition CRITERIA :: "(real \<Rightarrow> string) \<Rightarrow> (string \<Rightarrow> string) \<Rightarrow> dsm criterion list" where
  "CRITERIA fmt rc =
     [COMPLETE_MEDIATION rc, ECONOMY_OF_MECHANISM rc, SEPARATION_OF_PRIVILEGES rc,
      LEAST_PRIVILEGES rc, LEAST_COMMON_MECHANISM fmt rc, LAYERED_ARCHITECTURE rc,
      OPEN_DESIGN rc, CODE_CLEAN rc]"

section \<open>checker.py: the Archan class\<close>

text \<open>
  The older, object-oriented checker. Its methods return a bare boolean and report
  with \<open>print\<close>; the model returns the boolean together with the lines printed.
\<close>

record archan =
  check_complete_mediation_implemented :: bool
  check_economy_of_mechanism_implemented :: bool
  check_separation_of_privileges_implemented :: bool
  check_least_privileges_implemented :: bool
  check_least_common_mechanism_implemented :: bool
  check_layered_architecture_implemented :: bool
  independence_factor :: int
  simplicity_factor :: int

text \<open>\<open>Archan.__init__\<close>.\<close>

definition Archan :: archan where
  "Archan =
     \<lparr>check_complete_mediation_implemented = True,
      check_economy_of_mechanism_implemented = True,
      check_separation_of_privileges_implemented = False,
      check_least_privileges_implemented = False,
      check_least_common_mechanism_implemented = True,
      check_layered_architecture_implemented = False,
      independence_factor = 5,
      simplicity_factor = 2\<rparr>"

text \<open>
  The loop body of \<open>Archan._generate_mediation_matrix\<close>. It differs from the one of
  \<open>criterion.py\<close> in the categories a core library and a broker tolerate, and in the
  last branch, which stores -2 in the cell before it raises.
\<close>

definition Archan_mediation_body :: "category list \<Rightarrow> string list \<Rightarrow> string list \<Rightarrow> nat \<Rightarrow> nat \<Rightarrow> int list list \<Rightarrow> error + int list list" where
  "Archan_mediation_body cat ent packages i j m =
     and_then (getitem cat i) (\<lambda>ci.
       if ci = Framework then
         and_then (and_then (getitem cat j) (\<lambda>cj. Inr (if cj = Framework then - 1 else 0)))
           (setitem2 m i j)
       else if ci = Core_lib then
         and_then (tolerated cat ent packages [Framework] i j) (setitem2 m i j)
       else if ci = App_lib then
         and_then (tolerated cat ent packages [Framework, Core_lib, App_lib] i j) (setitem2 m i j)
       else if ci = App_module then
         and_then (tolerated cat ent packages [Framework, Core_lib, App_lib, Broker, Data] i j)
           (setitem2 m i j)
       else if ci = Broker then
         and_then (tolerated cat ent packages [App_module, Framework] i j) (setitem2 m i j)
       else if ci = Data then
         and_then (and_then (getitem cat j) (\<lambda>cj. Inr (if cj = Framework \<or> i = j then - 1 else 0)))
           (setitem2 m i j)
       else
         and_then (setitem2 m i j (- 2)) (\<lambda>m'.
           Inl (ArchanError (''Mediation matrix value NOT generated for '' @ str_nat i @ '':'' @ str_nat j))))"

definition Archan_generate_mediation_matrix :: "dsm \<Rightarrow> error + int list list" where
  "Archan_generate_mediation_matrix d =
     (let cat = categories d;
          ent = entities d;
          size = dsm_size d;
          packages = map split0 ent;
          mediation_matrix = replicate size (replicate size 0)
      in for_each [0..<size] (\<lambda>i.
           for_each [0..<size] (Archan_mediation_body cat ent packages i))
         mediation_matrix)"

text \<open>
  The loop body of \<open>Archan._check_matrices_compliance\<close>; the state is
  \<open>(discrepancy_found, printed lines)\<close>.
\<close>

definition Archan_compliance_body :: "dsm \<Rightarrow> int list list \<Rightarrow> nat \<Rightarrow> nat \<Rightarrow> bool \<times> string list \<Rightarrow> error + bool \<times> string list" where
  "Archan_compliance_body d med i j s =
     and_then (getitem2 med i j) (\<lambda>e.
       if e \<noteq> - 1 then
         and_then (getitem2 (dependency_matrix d) i j) (\<lambda>v.
           if v \<noteq> e then
             and_then (getitem (entities d) i) (\<lambda>ei.
             and_then (getitem (entities d) j) (\<lambda>ej.
               Inr (True, snd s @
                 [''Matrix discrepancy found at '' @ str_nat i @ '':'' @ str_nat j @ '' ('' @ ei
                  @ '':'' @ ej @ '')''])))
           else Inr s)
       else Inr s)"

definition Archan_check_matrices_compliance :: "dsm \<Rightarrow> int list list \<Rightarrow> error + bool \<times> string list" where
  "Archan_check_matrices_compliance d complete_mediation_matrix =
     (let matrix = dependency_matrix d;
          rows_dep_matrix = length matrix
      in and_then (getitem matrix 0) (\<lambda>row0.
         let cols_dep_matrix = length row0;
             rows_med_matrix = length complete_mediation_matrix
         in and_then (getitem complete_mediation_matrix 0) (\<lambda>med0.
         let cols_med_matrix = length med0
         in if rows_dep_matrix = rows_med_matrix then
              if cols_dep_matrix = cols_med_matrix then
                and_then
                  (for_each [0..<rows_dep_matrix] (\<lambda>i.
                     for_each [0..<cols_dep_matrix]
                       (Archan_compliance_body d complete_mediation_matrix i))
                   (False, []))
                  (\<lambda>(discrepancy_found, out). Inr (\<not> discrepancy_found, out))
              else Inr (False, [''Matrices are NOT compliant(number of columns not equals)''])
            else Inr (False, [''Matrices are NOT compliant (number of rows not equals)'']))))"

definition Archan_check_complete_mediation :: "archan \<Rightarrow> dsm \<Rightarrow> error + bool \<times> string list" where
  "Archan_check_complete_mediation self d =
     and_then (Archan_generate_mediation_matrix d) (\<lambda>med_matrix.
       Archan_check_matrices_compliance d med_matrix)"

definition Archan_economy_body :: "dsm \<Rightarrow> nat \<Rightarrow> nat \<Rightarrow> int \<Rightarrow> error + int" where
  "Archan_economy_body d i j dependency_number =
     and_then (getitem (categories d) i) (\<lambda>ci.
       if ci = Framework then Inr dependency_number
       else and_then (getitem (categories d) j) (\<lambda>cj.
         if cj = Framework then Inr dependency_number
         else and_then (getitem2 (dependency_matrix d) i j) (\<lambda>v.
           Inr (if v > 0 then dependency_number + 1 else dependency_number))))"

definition Archan_check_economy_of_mechanism :: "archan \<Rightarrow> dsm \<Rightarrow> error + bool \<times> string list" where
  "Archan_check_economy_of_mechanism self d =
     (let size = dsm_size d
      in and_then
           (for_each [0..<size] (\<lambda>i. for_each [0..<size] (Archan_economy_body d i)) 0)
           (\<lambda>dependency_number.
              if dependency_number < int size * simplicity_factor self then Inr (True, [])
              else Inr (False,
                [''dependency_number: '' @ str_int dependency_number,
                 ''rowsdep_matrix: '' @ str_nat size,
                 ''expected dependencies: '' @ str_int (simplicity_factor self)])))"

definition Archan_check_separation_of_privileges :: "archan \<Rightarrow> dsm \<Rightarrow> bool" where
  "Archan_check_separation_of_privileges self d = False"

definition Archan_check_least_privileges :: "archan \<Rightarrow> dsm \<Rightarrow> bool" where
  "Archan_check_least_privileges self d = False"

text \<open>
  \<open>Archan.check_least_common_mechanism\<close>: its two loops are those of \<open>criterion.py\<close>,
  line for line. The bound is \<open>old_div(dsm.size, self.independence_factor)\<close>, the floor
  division of two integers.
\<close>

definition Archan_check_least_common_mechanism :: "archan \<Rightarrow> dsm \<Rightarrow> error + bool \<times> string list" where
  "Archan_check_least_common_mechanism self d =
     and_then (common_counts d) (\<lambda>counted.
     and_then (common_exempt d counted) (\<lambda>dependent_module_number.
     and_then (max_list dependent_module_number) (\<lambda>maximum.
       if independence_factor self = 0 then Inl ZeroDivisionError
       else if maximum \<le> int (dsm_size d) div independence_factor self then Inr (True, [])
       else
         Inr (False,
           [''max number of dependencies to a module: '' @ str_int maximum,
            ''max number of expected dependencies: ''
              @ str_int (int (dsm_size d) div independence_factor self)]))))"

definition Archan_check_layered_architecture :: "archan \<Rightarrow> bool" where
  "Archan_check_layered_architecture self = False"

definition Archan_check_open_design :: "archan \<Rightarrow> bool" where
  "Archan_check_open_design self =
     (check_complete_mediation_implemented self \<and>
      check_economy_of_mechanism_implemented self \<and>
      check_separation_of_privileges_implemented self \<and>
      check_least_privileges_implemented self \<and>
      check_least_common_mechanism_implemented self \<and>
      check_layered_architecture_implemented self)"

definition Archan_check_code_clean :: "archan \<Rightarrow> bool \<times> string list" where
  "Archan_check_code_clean self = (True, [''No code issue found.''])"

section \<open>Auxiliary notions for the proofs\<close>

text \<open>
  The invariant of a double loop that stores one value in every cell of an \<open>n\<close> by
  \<open>n\<close> matrix, row by row: the shape is kept, and every cell before position
  \<open>(i, j)\<close> holds a value that satisfies \<open>Q\<close> for its row and column.
\<close>

definition filled :: "(nat \<Rightarrow> nat \<Rightarrow> int \<Rightarrow> bool) \<Rightarrow> nat \<Rightarrow> nat \<Rightarrow> nat \<Rightarrow> int list list \<Rightarrow> bool" where
  "filled Q n i j m \<longleftrightarrow>
     length m = n \<and> (\<forall>r<n. length (m ! r) = n) \<and>
     (\<forall>r c. (r < i \<or> (r = i \<and> c < j)) \<longrightarrow> r < n \<longrightarrow> c < n \<longrightarrow> Q r c (m ! r ! c))"

text \<open>
  The matrix in which every positive cell of \<open>dependency_matrix\<close> is replaced by 1
  and every other cell by 0; categories, entities and size are kept.
\<close>

definition positive_cells :: "dsm \<Rightarrow> dsm" where
  "positive_cells d =
     d\<lparr>dependency_matrix := map (map (\<lambda>v. if 0 < v then 1 else 0)) (dependency_matrix d)\<rparr>"

text \<open>
  The categories listed in the condition of each branch of the two generators, by the
  category of the source entity: \<open>tolerates\<close> for \<open>_generate_mediation_matrix\<close> of
  \<open>criterion.py\<close>, \<open>Archan_tolerates\<close> for the one of \<open>checker.py\<close>. The branches
  for framework and data have no package clause and are not in these tables.
\<close>

definition tolerates :: "category \<Rightarrow> category list" where
  "tolerates c =
     (case c of
        Core_lib \<Rightarrow> [Framework, Core_lib]
      | App_lib \<Rightarrow> [Framework, Core_lib, App_lib]
      | App_module \<Rightarrow> [Framework, Core_lib, App_lib, Broker, Data]
      | Broker \<Rightarrow> [App_module, Core_lib, Framework]
      | _ \<Rightarrow> [])"

definition Archan_tolerates :: "category \<Rightarrow> category list" where
  "Archan_tolerates c =
     (case c of
        Core_lib \<Rightarrow> [Framework]
      | App_lib \<Rightarrow> [Framework, Core_lib, App_lib]
      | App_module \<Rightarrow> [Framework, Core_lib, App_lib, Broker, Data]
      | Broker \<Rightarrow> [App_module, Framework]
      | _ \<Rightarrow> [])"

text \<open>
  The number that a string of decimal digits denotes, to state that \<open>str_nat\<close> prints
  a number in decimal.
\<close>

fun decimal :: "string \<Rightarrow> nat" where
  "decimal s = fold (\<lambda>c n. 10 * n + (of_char c - 48)) s 0"

section \<open>Properties\<close>

lemma split_not_Nil: "split c s \<noteq> []"
  by (induction s) (auto split: list.splits)

subsection \<open>Printing numbers, joining and splitting\<close>

lemma digit_char_value: "d < 10 \<Longrightarrow> of_char (digit_char d) = 48 + d"
  by (simp add: digit_char_def)

lemma decimal_str_nat: "decimal (str_nat n) = n"
proof (induction n rule: str_nat.induct)
  case (1 n)
  show ?case
  proof (cases "n < 10")
    case True
    then show ?thesis by (subst str_nat.simps) (simp add: digit_char_value)
  next
    case False
    have "n mod 10 < 10" by simp
    then have "of_char (digit_char (n mod 10)) = 48 + n mod 10" by (rule digit_char_value)
    with False 1 show ?thesis by (subst str_nat.simps) simp
  qed
qed

lemma decimal_str_int: "0 \<le> i \<Longrightarrow> int (decimal (str_int i)) = i"
  by (simp add: str_int_def decimal_str_nat del: decimal.simps)

lemma str_int_negative: "i < 0 \<Longrightarrow> str_int i = CHR ''-'' # str_nat (nat (- i))"
  by (simp add: str_int_def)

lemma split_append_sep:
  assumes "c \<notin> set x"
  shows "split c (x @ c # r) = x # split c r"
  using assms by (induction x) auto

lemma split_no_sep: "c \<notin> set x \<Longrightarrow> split c x = [x]"
  by (induction x) auto

lemma split_join:
  assumes "xs \<noteq> []" and "\<forall>x \<in> set xs. c \<notin> set x"
  shows "split c (join [c] xs) = xs"
  using assms
proof (induction "[c]" xs rule: join.induct)
  case 1
  then show ?case by simp
next
  case (2 x)
  then show ?case by (simp add: split_no_sep)
next
  case (3 x y ys)
  then show ?case by (simp add: split_append_sep)
qed

subsection \<open>Loops\<close>

lemma for_each_append:
  "for_each (xs @ ys) body s = and_then (for_each xs body s) (for_each ys body)"
proof (induction xs arbitrary: s)
  case Nil
  show ?case by simp
next
  case (Cons k ks)
  show ?case by (cases "body k s") (simp_all add: Cons.IH)
qed

lemma for_each_upt_Suc:
  "for_each [0..<Suc n] body s = and_then (for_each [0..<n] body s) (body n)"
proof -
  have "for_each [n] body = body n" 
  proof
    fix t show "for_each [n] body t = body n t" by (cases "body n t") simp_all
  qed
  then show ?thesis by (simp add: for_each_append)
qed

lemma for_each_upt_rule:
  assumes init: "P 0 s"
    and step: "\<And>k t. k < n \<Longrightarrow> P k t \<Longrightarrow> \<exists>t'. body k t = Inr t' \<and> P (Suc k) t'"
  shows "\<exists>s'. for_each [0..<n] body s = Inr s' \<and> P n s'"
  using step
proof (induction n)
  case 0
  show ?case using init by simp
next
  case (Suc n)
  from Suc.IH Suc.prems obtain s1 where s1: "for_each [0..<n] body s = Inr s1" "P n s1"
    by (meson less_Suc_eq)
  from Suc.prems [of n s1] s1(2) obtain s2 where "body n s1 = Inr s2" "P (Suc n) s2"
    by blast
  with s1 show ?case unfolding for_each_upt_Suc by simp
qed

lemma for_each_cong:
  assumes "\<And>k s. k \<in> set ks \<Longrightarrow> f k s = g k s"
  shows "for_each ks f s = for_each ks g s"
  using assms
proof (induction ks arbitrary: s)
  case Nil
  show ?case by simp
next
  case (Cons k ks)
  have "f k s = g k s" using Cons.prems by simp
  moreover have "for_each ks f = for_each ks g"
    using Cons.IH Cons.prems by (intro ext) simp
  ultimately show ?case by simp
qed

lemma for_each_pure: "for_each ks (\<lambda>k s. Inr (f k s)) s = Inr (fold f ks s)"
  by (induction ks arbitrary: s) simp_all

lemma for_each_rel:
  assumes "R s t"
    and "\<And>k s t. k \<in> set ks \<Longrightarrow> R s t \<Longrightarrow> rel_sum (=) R (f k s) (g k t)"
  shows "rel_sum (=) R (for_each ks f s) (for_each ks g t)"
  using assms
proof (induction ks arbitrary: s t)
  case Nil
  then show ?case by simp
next
  case (Cons k ks)
  have rel: "rel_sum (=) R (f k s) (g k t)" using Cons.prems by simp
  show ?case
  proof (cases "f k s")
    case (Inl a)
    with rel show ?thesis by (cases "g k t") simp_all
  next
    case (Inr s')
    with rel obtain t' where "g k t = Inr t'" "R s' t'"
      by (cases "g k t") simp_all
    with Inr show ?thesis using Cons.IH [of s' t'] Cons.prems(2) by simp
  qed
qed

subsection \<open>Reads and writes inside the bounds\<close>

lemma getitem_Inr [simp]: "i < length xs \<Longrightarrow> getitem xs i = Inr (xs ! i)"
  by (simp add: getitem_def)

lemma getitem2_Inr [simp]: "i < length m \<Longrightarrow> j < length (m ! i) \<Longrightarrow> getitem2 m i j = Inr (m ! i ! j)"
  by (simp add: getitem2_def)

lemma setitem_Inr [simp]: "i < length xs \<Longrightarrow> setitem xs i v = Inr (xs[i := v])"
  by (simp add: setitem_def)

lemma setitem2_Inr:
  "i < length m \<Longrightarrow> j < length (m ! i) \<Longrightarrow> setitem2 m i j v = Inr (m[i := (m ! i)[j := v]])"
  by (simp add: setitem2_def)

subsection \<open>Filling a square matrix cell by cell\<close>

lemma filled_step:
  assumes inv: "filled Q n i j m" and i: "i < n" and j: "j < n" and v: "Q i j v"
  shows "filled Q n i (Suc j) (m[i := (m ! i)[j := v]])"
  unfolding filled_def
proof (intro conjI allI impI)
  show "length (m[i := (m ! i)[j := v]]) = n" using inv by (simp add: filled_def)
next
  fix r assume "r < n"
  then show "length (m[i := (m ! i)[j := v]] ! r) = n"
    using inv by (cases "r = i") (simp_all add: filled_def)
next
  fix r c
  assume rc: "r < i \<or> r = i \<and> c < Suc j" and r: "r < n" and c: "c < n"
  have len: "length m = n" "length (m ! i) = n"
    using inv i by (simp_all add: filled_def)
  show "Q r c (m[i := (m ! i)[j := v]] ! r ! c)"
  proof (cases "r = i")
    case False
    then have "r < i" using rc by simp
    then show ?thesis using inv r c False by (simp add: filled_def)
  next
    case True
    show ?thesis
    proof (cases "c = j")
      case True
      with \<open>r = i\<close> show ?thesis using v len i j by simp
    next
      case False
      then have "c < j" using rc True by simp
      then show ?thesis using inv r c True False len i by (simp add: filled_def)
    qed
  qed
qed

lemma filled_next_row: "filled Q n i n m \<Longrightarrow> filled Q n (Suc i) 0 m"
  by (auto simp add: filled_def less_Suc_eq)

lemma fill_loop:
  assumes step: "\<And>i j m. i < n \<Longrightarrow> j < n \<Longrightarrow> length m = n \<Longrightarrow> \<forall>r<n. length (m ! r) = n \<Longrightarrow>
      \<exists>v. body i j m = Inr (m[i := (m ! i)[j := v]]) \<and> Q i j v"
  shows "\<exists>m. for_each [0..<n] (\<lambda>i. for_each [0..<n] (body i)) (replicate n (replicate n 0)) = Inr m
           \<and> filled Q n n 0 m"
proof -
  have inner: "\<exists>m'. for_each [0..<n] (body i) m = Inr m' \<and> filled Q n (Suc i) 0 m'"
    if "i < n" "filled Q n i 0 m" for i m
  proof -
    have "\<exists>m'. for_each [0..<n] (body i) m = Inr m' \<and> filled Q n i n m'"
    proof (rule for_each_upt_rule [where P = "filled Q n i"])
      show "filled Q n i 0 m" by (rule that)
    next
      fix j t assume j: "j < n" and t: "filled Q n i j t"
      have "length t = n" "\<forall>r<n. length (t ! r) = n" using t by (simp_all add: filled_def)
      from step [OF \<open>i < n\<close> j this] obtain v
        where v: "body i j t = Inr (t[i := (t ! i)[j := v]])" "Q i j v" by blast
      then show "\<exists>t'. body i j t = Inr t' \<and> filled Q n i (Suc j) t'"
        using filled_step [OF t \<open>i < n\<close> j v(2)] by simp
    qed
    then show ?thesis using filled_next_row by blast
  qed
  show ?thesis
  proof (rule for_each_upt_rule [where P = "\<lambda>i. filled Q n i 0"])
    show "filled Q n 0 0 (replicate n (replicate n 0))" by (simp add: filled_def)
  next
    fix i t assume "i < n" "filled Q n i 0 t"
    then show "\<exists>t'. for_each [0..<n] (body i) t = Inr t' \<and> filled Q n (Suc i) 0 t'" by (rule inner)
  qed
qed

subsection \<open>The mediation matrix\<close>

lemma package_or_self_Inr:
  "i < length ent \<Longrightarrow> j < length packages \<Longrightarrow>
   package_or_self ent packages i j = Inr (startswith (ent ! i) (packages ! j @ ''.'') \<or> i = j)"
  by (simp add: package_or_self_def)

lemma tolerated_Inr:
  "j < length cat \<Longrightarrow> i < length ent \<Longrightarrow> j < length packages \<Longrightarrow>
   tolerated cat ent packages allowed i j =
     Inr (if cat ! j \<in> set allowed \<or> startswith (ent ! i) (packages ! j @ ''.'') \<or> i = j then - 1 else 0)"
  by (simp add: tolerated_def package_or_self_Inr)

lemma mediation_value_total:
  assumes "i < length cat" "j < length cat" "length ent = length cat" "length packages = length cat"
    and "known_category (cat ! i)"
  shows "\<exists>v. mediation_value cat ent packages i j = Inr v \<and> (v = - 1 \<or> v = 0)"
  using assms by (auto simp add: mediation_value_def tolerated_Inr known_category_def)

lemma generate_mediation_matrix_filled:
  assumes wf: "wf_dsm d" and known: "list_all known_category (categories d)"
  shows "\<exists>m. generate_mediation_matrix d = Inr m \<and>
           filled (\<lambda>i j v. mediation_value (categories d) (entities d) (map split0 (entities d)) i j = Inr v)
             (dsm_size d) (dsm_size d) 0 m"
proof -
  let ?n = "dsm_size d"
  let ?mv = "mediation_value (categories d) (entities d) (map split0 (entities d))"
  have lens: "length (categories d) = ?n" "length (entities d) = ?n"
    using wf by (simp_all add: wf_dsm_def)
  have "\<exists>v. and_then (?mv i j) (setitem2 m i j) = Inr (m[i := (m ! i)[j := v]]) \<and> ?mv i j = Inr v"
    if "i < ?n" "j < ?n" "length m = ?n" "\<forall>r<?n. length (m ! r) = ?n" for i j m
  proof -
    have k: "known_category (categories d ! i)"
      using known that lens by (simp add: list_all_length)
    have b: "i < length (categories d)" "j < length (categories d)"
      "length (entities d) = length (categories d)"
      "length (map split0 (entities d)) = length (categories d)"
      using that lens by simp_all
    from mediation_value_total [OF b k] obtain v where "?mv i j = Inr v"
      by (elim exE conjE)
    moreover have "setitem2 m i j v = Inr (m[i := (m ! i)[j := v]])" for v
      using that by (intro setitem2_Inr) simp_all
    ultimately show ?thesis by simp
  qed
  then have "\<exists>m. for_each [0..<?n] (\<lambda>i. for_each [0..<?n] (\<lambda>j m. and_then (?mv i j) (setitem2 m i j)))
        (replicate ?n (replicate ?n 0)) = Inr m \<and> filled (\<lambda>i j v. ?mv i j = Inr v) ?n ?n 0 m"
    by (intro fill_loop [where n = ?n and Q = "\<lambda>i j v. ?mv i j = Inr v"
          and body = "\<lambda>i j m. and_then (?mv i j) (setitem2 m i j)"])
  then show ?thesis unfolding generate_mediation_matrix_def Let_def .
qed

subsection \<open>Top-level packages\<close>

lemma split_hd: "\<exists>ws. split c s = takeWhile (\<lambda>x. x \<noteq> c) s # ws"
proof (induction s)
  case Nil
  show ?case by simp
next
  case (Cons x xs)
  then obtain ws where "split c xs = takeWhile (\<lambda>x. x \<noteq> c) xs # ws" by blast
  then show ?case by simp
qed

lemma split0_takeWhile: "split0 e = takeWhile (\<lambda>x. x \<noteq> CHR ''.'') e"
proof -
  obtain ws where "split (CHR ''.'') e = takeWhile (\<lambda>x. x \<noteq> CHR ''.'') e # ws"
    using split_hd by blast
  then show ?thesis by (simp add: split0_def)
qed

lemma split0_no_dot: "CHR ''.'' \<notin> set (split0 e)"
  by (auto simp add: split0_takeWhile dest: set_takeWhileD)

lemma takeWhile_prefix_stop:
  assumes "c \<notin> set p"
  shows "takeWhile (\<lambda>x. x \<noteq> c) (p @ c # r) = p"
  using assms by (induction p) auto

lemma startswith_package_iff:
  "startswith e (split0 e' @ ''.'') \<longleftrightarrow> CHR ''.'' \<in> set e \<and> split0 e = split0 e'"
proof
  assume "startswith e (split0 e' @ ''.'')"
  then obtain r where e: "e = split0 e' @ CHR ''.'' # r"
    by (auto simp add: startswith_def prefix_def)
  have "split0 e = split0 e'"
    unfolding split0_takeWhile [of e]
    by (subst e) (rule takeWhile_prefix_stop [OF split0_no_dot])
  moreover have "CHR ''.'' \<in> set e" by (subst e) simp
  ultimately show "CHR ''.'' \<in> set e \<and> split0 e = split0 e'" by simp
next
  assume a: "CHR ''.'' \<in> set e \<and> split0 e = split0 e'"
  then have "e = takeWhile (\<lambda>x. x \<noteq> CHR ''.'') e @ dropWhile (\<lambda>x. x \<noteq> CHR ''.'') e"
    by simp
  moreover have "dropWhile (\<lambda>x. x \<noteq> CHR ''.'') e \<noteq> []" using a by (simp add: dropWhile_eq_Nil_conv)
  moreover have "hd (dropWhile (\<lambda>x. x \<noteq> CHR ''.'') e) = CHR ''.''"
    using a hd_dropWhile [of "\<lambda>x. x \<noteq> CHR ''.''" e] by (auto simp add: dropWhile_eq_Nil_conv)
  ultimately obtain r where "e = takeWhile (\<lambda>x. x \<noteq> CHR ''.'') e @ CHR ''.'' # r"
    by (metis list.collapse)
  then have "e = split0 e' @ ''.'' @ r" using a by (simp add: split0_takeWhile)
  then show "startswith e (split0 e' @ ''.'')"
    unfolding startswith_def prefix_def by (metis append.assoc)
qed

lemma generate_mediation_matrix_cell:
  assumes wf: "wf_dsm d" and known: "list_all known_category (categories d)"
    and i: "i < dsm_size d" and j: "j < dsm_size d"
  shows "\<exists>m. generate_mediation_matrix d = Inr m \<and>
           mediation_value (categories d) (entities d) (map split0 (entities d)) i j = Inr (m ! i ! j)"
proof -
  from generate_mediation_matrix_filled [OF wf known] obtain m
    where "generate_mediation_matrix d = Inr m"
      and "filled (\<lambda>i j v. mediation_value (categories d) (entities d) (map split0 (entities d)) i j = Inr v)
             (dsm_size d) (dsm_size d) 0 m" by blast
  then show ?thesis using i j by (auto simp add: filled_def)
qed

subsection \<open>The two generators, cell by cell\<close>

lemma mediation_value_tolerates:
  assumes "i < length cat" "cat ! i \<in> {Core_lib, App_lib, App_module, Broker}"
  shows "mediation_value cat ent packages i j = tolerated cat ent packages (tolerates (cat ! i)) i j"
  using assms by (auto simp add: mediation_value_def tolerates_def)

lemma Archan_mediation_body_tolerates:
  assumes "i < length cat" "cat ! i \<in> {Core_lib, App_lib, App_module, Broker}"
  shows "Archan_mediation_body cat ent packages i j m =
         and_then (tolerated cat ent packages (Archan_tolerates (cat ! i)) i j) (setitem2 m i j)"
  using assms by (auto simp add: Archan_mediation_body_def Archan_tolerates_def)

lemma Archan_mediation_body_Inr:
  assumes i: "i < length cat" and j: "j < length cat" and ent: "length ent = length cat"
    and pk: "length packages = length cat" and known: "known_category (cat ! i)"
    and mi: "i < length m" and mj: "j < length (m ! i)"
  shows "\<exists>v. Archan_mediation_body cat ent packages i j m = Inr (m[i := (m ! i)[j := v]]) \<and>
           (v = - 1 \<or> v = 0) \<and>
           (cat ! i \<in> {Core_lib, App_lib, App_module, Broker} \<longrightarrow>
              v = (if cat ! j \<in> set (Archan_tolerates (cat ! i))
                      \<or> startswith (ent ! i) (packages ! j @ ''.'') \<or> i = j then - 1 else 0))"
proof (cases "cat ! i \<in> {Core_lib, App_lib, App_module, Broker}")
  case True
  have "tolerated cat ent packages (Archan_tolerates (cat ! i)) i j =
      Inr (if cat ! j \<in> set (Archan_tolerates (cat ! i))
              \<or> startswith (ent ! i) (packages ! j @ ''.'') \<or> i = j then - 1 else 0)"
    using i j ent pk by (intro tolerated_Inr) simp_all
  then show ?thesis
    using True i mi mj by (simp add: Archan_mediation_body_tolerates setitem2_Inr)
next
  case False
  with known have "cat ! i = Framework \<or> cat ! i = Data" by (auto simp add: known_category_def)
  then show ?thesis
    using False i j mi mj by (auto simp add: Archan_mediation_body_def setitem2_Inr)
qed

lemma Archan_generate_mediation_matrix_filled:
  assumes wf: "wf_dsm d" and known: "list_all known_category (categories d)"
  shows "\<exists>m. Archan_generate_mediation_matrix d = Inr m \<and>
           filled (\<lambda>i j v. (v = - 1 \<or> v = 0) \<and>
               (categories d ! i \<in> {Core_lib, App_lib, App_module, Broker} \<longrightarrow>
                  v = (if categories d ! j \<in> set (Archan_tolerates (categories d ! i))
                          \<or> startswith (entities d ! i) (split0 (entities d ! j) @ ''.'') \<or> i = j
                       then - 1 else 0)))
             (dsm_size d) (dsm_size d) 0 m"
proof -
  let ?n = "dsm_size d"
  let ?Q = "\<lambda>i j v. (v = - 1 \<or> v = 0) \<and>
               (categories d ! i \<in> {Core_lib, App_lib, App_module, Broker} \<longrightarrow>
                  v = (if categories d ! j \<in> set (Archan_tolerates (categories d ! i))
                          \<or> startswith (entities d ! i) (split0 (entities d ! j) @ ''.'') \<or> i = j
                       then - 1 else 0))"
  let ?body = "Archan_mediation_body (categories d) (entities d) (map split0 (entities d))"
  have lens: "length (categories d) = ?n" "length (entities d) = ?n"
    using wf by (simp_all add: wf_dsm_def)
  have "\<exists>v. ?body i j m = Inr (m[i := (m ! i)[j := v]]) \<and> ?Q i j v"
    if "i < ?n" "j < ?n" "length m = ?n" "\<forall>r<?n. length (m ! r) = ?n" for i j m
  proof -
    have k: "known_category (categories d ! i)"
      using known that lens by (simp add: list_all_length)
    have b: "i < length (categories d)" "j < length (categories d)"
      "length (entities d) = length (categories d)"
      "length (map split0 (entities d)) = length (categories d)"
      using that lens by simp_all
    have c: "i < length m" "j < length (m ! i)" using that by simp_all
    from Archan_mediation_body_Inr [OF b k c] show ?thesis
      using that lens by simp
  qed
  then have "\<exists>m. for_each [0..<?n] (\<lambda>i. for_each [0..<?n] (?body i))
        (replicate ?n (replicate ?n 0)) = Inr m \<and> filled ?Q ?n ?n 0 m"
    by (intro fill_loop [where n = ?n and Q = ?Q and body = ?body])
  then show ?thesis unfolding Archan_generate_mediation_matrix_def Let_def .
qed

lemma filled_rows:
  assumes f: "filled Q n n 0 m" and q: "\<And>i j v. i < n \<Longrightarrow> j < n \<Longrightarrow> Q i j v \<Longrightarrow> v = - 1 \<or> v = 0"
  shows "length m = n \<and> (\<forall>row \<in> set m. length row = n \<and> (\<forall>v \<in> set row. v = - 1 \<or> v = 0))"
proof -
  have len: "length m = n" and rows: "\<And>r. r < n \<Longrightarrow> length (m ! r) = n"
    and cells: "\<And>r c. r < n \<Longrightarrow> c < n \<Longrightarrow> Q r c (m ! r ! c)"
    using f by (simp_all add: filled_def)
  have "length row = n \<and> (\<forall>v \<in> set row. v = - 1 \<or> v = 0)" if "row \<in> set m" for row
  proof -
    from that len obtain r where r: "r < n" "row = m ! r" by (auto simp add: in_set_conv_nth)
    have "v = - 1 \<or> v = 0" if "v \<in> set row" for v
    proof -
      from that r rows obtain c where c: "c < n" "v = m ! r ! c"
        by (auto simp add: in_set_conv_nth)
      with q [OF r(1) c(1) cells [OF r(1) c(1)]] show ?thesis by simp
    qed
    then show ?thesis using r rows by simp
  qed
  with len show ?thesis by blast
qed


lemma Archan_generate_mediation_matrix_cell:
  assumes wf: "wf_dsm d" and known: "list_all known_category (categories d)"
    and i: "i < dsm_size d" and j: "j < dsm_size d"
    and cat: "categories d ! i \<in> {Core_lib, App_lib, App_module, Broker}"
  shows "\<exists>m. Archan_generate_mediation_matrix d = Inr m \<and>
           m ! i ! j = (if categories d ! j \<in> set (Archan_tolerates (categories d ! i))
                          \<or> startswith (entities d ! i) (split0 (entities d ! j) @ ''.'') \<or> i = j
                       then - 1 else 0)"
proof -
  from Archan_generate_mediation_matrix_filled [OF wf known] obtain m
    where m: "Archan_generate_mediation_matrix d = Inr m"
      and f: "filled (\<lambda>i j v. (v = - 1 \<or> v = 0) \<and>
               (categories d ! i \<in> {Core_lib, App_lib, App_module, Broker} \<longrightarrow>
                  v = (if categories d ! j \<in> set (Archan_tolerates (categories d ! i))
                          \<or> startswith (entities d ! i) (split0 (entities d ! j) @ ''.'') \<or> i = j
                       then - 1 else 0)))
             (dsm_size d) (dsm_size d) 0 m" by blast
  from f i j cat have "m ! i ! j = (if categories d ! j \<in> set (Archan_tolerates (categories d ! i))
                          \<or> startswith (entities d ! i) (split0 (entities d ! j) @ ''.'') \<or> i = j
                       then - 1 else 0)"
    unfolding filled_def by blast
  with m show ?thesis by blast
qed

lemma generate_mediation_matrix_tolerates:
  assumes wf: "wf_dsm d" and known: "list_all known_category (categories d)"
    and i: "i < dsm_size d" and j: "j < dsm_size d"
    and cat: "categories d ! i \<in> {Core_lib, App_lib, App_module, Broker}"
  shows "\<exists>m. generate_mediation_matrix d = Inr m \<and>
           m ! i ! j = (if categories d ! j \<in> set (tolerates (categories d ! i))
                          \<or> startswith (entities d ! i) (split0 (entities d ! j) @ ''.'') \<or> i = j
                       then - 1 else 0)"
proof -
  have lens: "length (categories d) = dsm_size d" "length (entities d) = dsm_size d"
    using wf by (simp_all add: wf_dsm_def)
  from generate_mediation_matrix_cell [OF wf known i j] obtain m
    where m: "generate_mediation_matrix d = Inr m"
      and c: "mediation_value (categories d) (entities d) (map split0 (entities d)) i j = Inr (m ! i ! j)"
    by blast
  have "mediation_value (categories d) (entities d) (map split0 (entities d)) i j =
        tolerated (categories d) (entities d) (map split0 (entities d)) (tolerates (categories d ! i)) i j"
    using cat i lens by (intro mediation_value_tolerates) simp_all
  also have "\<dots> = Inr (if categories d ! j \<in> set (tolerates (categories d ! i))
       \<or> startswith (entities d ! i) (map split0 (entities d) ! j @ ''.'') \<or> i = j then - 1 else 0)"
    using i j lens by (intro tolerated_Inr) simp_all
  finally show ?thesis using m c j lens by simp
qed

subsection \<open>Claims about the mediation matrix\<close>

text \<open>
  Claim C8. For a matrix whose categories are all among the six known values, whatever
  the entity names, \<open>_generate_mediation_matrix\<close> returns a square matrix of side
  \<open>size\<close> in which every cell is -1 (tolerated) or 0 (forbidden); the value 1
  (required) is never produced. This holds for the generator of \<open>criterion.py\<close> and
  for the one of \<open>checker.py\<close>.
\<close>

theorem mediation_values_never_required:
  assumes wf: "wf_dsm d" and known: "list_all known_category (categories d)"
  shows "(\<exists>m. generate_mediation_matrix d = Inr m \<and> length m = dsm_size d \<and>
            (\<forall>row \<in> set m. length row = dsm_size d \<and> (\<forall>v \<in> set row. v = - 1 \<or> v = 0))) \<and>
         (\<exists>m. Archan_generate_mediation_matrix d = Inr m \<and> length m = dsm_size d \<and>
            (\<forall>row \<in> set m. length row = dsm_size d \<and> (\<forall>v \<in> set row. v = - 1 \<or> v = 0)))"
proof
  let ?n = "dsm_size d"
  let ?mv = "mediation_value (categories d) (entities d) (map split0 (entities d))"
  have lens: "length (categories d) = ?n" "length (entities d) = ?n"
    using wf by (simp_all add: wf_dsm_def)
  from generate_mediation_matrix_filled [OF wf known] obtain m
    where m: "generate_mediation_matrix d = Inr m"
      and f: "filled (\<lambda>i j v. ?mv i j = Inr v) ?n ?n 0 m" by blast
  have "v = - 1 \<or> v = 0" if "i < ?n" "j < ?n" "?mv i j = Inr v" for i j v
  proof -
    have k: "known_category (categories d ! i)"
      using known that lens by (simp add: list_all_length)
    have b: "i < length (categories d)" "j < length (categories d)"
      "length (entities d) = length (categories d)"
      "length (map split0 (entities d)) = length (categories d)"
      using that lens by simp_all
    from mediation_value_total [OF b k] that(3) show ?thesis by auto
  qed
  with f have "length m = ?n \<and> (\<forall>row \<in> set m. length row = ?n \<and> (\<forall>v \<in> set row. v = - 1 \<or> v = 0))"
    by (rule filled_rows)
  with m show "\<exists>m. generate_mediation_matrix d = Inr m \<and> length m = ?n \<and>
            (\<forall>row \<in> set m. length row = ?n \<and> (\<forall>v \<in> set row. v = - 1 \<or> v = 0))" by blast
next
  let ?n = "dsm_size d"
  from Archan_generate_mediation_matrix_filled [OF wf known] obtain m
    where m: "Archan_generate_mediation_matrix d = Inr m"
      and f: "filled (\<lambda>i j v. (v = - 1 \<or> v = 0) \<and>
               (categories d ! i \<in> {Core_lib, App_lib, App_module, Broker} \<longrightarrow>
                  v = (if categories d ! j \<in> set (Archan_tolerates (categories d ! i))
                          \<or> startswith (entities d ! i) (split0 (entities d ! j) @ ''.'') \<or> i = j
                       then - 1 else 0))) ?n ?n 0 m" by blast
  from f have "length m = ?n \<and> (\<forall>row \<in> set m. length row = ?n \<and> (\<forall>v \<in> set row. v = - 1 \<or> v = 0))"
    by (rule filled_rows) blast
  with m show "\<exists>m. Archan_generate_mediation_matrix d = Inr m \<and> length m = ?n \<and>
            (\<forall>row \<in> set m. length row = ?n \<and> (\<forall>v \<in> set row. v = - 1 \<or> v = 0))" by blast
qed

theorem mediation_values_never_required_witness:
  "(\<exists>m. generate_mediation_matrix
          \<lparr>categories = [Framework, App_module, Broker], entities = [''fw'', ''app.a'', ''app.b''],
           dependency_matrix = [[0, 0, 0], [1, 0, 2], [0, 3, 0]], dsm_size = 3\<rparr> = Inr m \<and>
        length m = 3 \<and> (\<forall>row \<in> set m. length row = 3 \<and> (\<forall>v \<in> set row. v = - 1 \<or> v = 0))) \<and>
   (\<exists>m. Archan_generate_mediation_matrix
          \<lparr>categories = [Framework, App_module, Broker], entities = [''fw'', ''app.a'', ''app.b''],
           dependency_matrix = [[0, 0, 0], [1, 0, 2], [0, 3, 0]], dsm_size = 3\<rparr> = Inr m \<and>
        length m = 3 \<and> (\<forall>row \<in> set m. length row = 3 \<and> (\<forall>v \<in> set row. v = - 1 \<or> v = 0)))"
  using mediation_values_never_required
    [of "\<lparr>categories = [Framework, App_module, Broker], entities = [''fw'', ''app.a'', ''app.b''],
           dependency_matrix = [[0, 0, 0], [1, 0, 2], [0, 3, 0]], dsm_size = 3\<rparr>"]
  by (simp add: wf_dsm_def known_category_def)

text \<open>
  Claim C1, as amended. For a matrix whose categories are all among the six known
  values, the cell (i, j) of the mediation matrix generated by \<open>criterion.py\<close> for an
  entity i of category core_lib is -1 exactly when category(j) is framework or core_lib,
  or the name of entity i starts with the top-level package of entity j followed by a
  dot, or i = j, and is 0 otherwise. The name of entity i starts with the package of
  entity j and a dot exactly when it contains a dot and both entities have the same
  top-level package.
\<close>

theorem core_lib_row:
  assumes wf: "wf_dsm d" and known: "list_all known_category (categories d)"
    and i: "i < dsm_size d" and j: "j < dsm_size d"
    and core: "categories d ! i = Core_lib"
  shows "(\<exists>m. generate_mediation_matrix d = Inr m \<and>
            m ! i ! j =
              (if categories d ! j \<in> {Framework, Core_lib}
                  \<or> startswith (entities d ! i) (split0 (entities d ! j) @ ''.'')
                  \<or> i = j
               then - 1 else 0)) \<and>
         (startswith (entities d ! i) (split0 (entities d ! j) @ ''.'') \<longleftrightarrow>
            CHR ''.'' \<in> set (entities d ! i) \<and> split0 (entities d ! i) = split0 (entities d ! j))"
proof -
  have cat: "categories d ! i \<in> {Core_lib, App_lib, App_module, Broker}" using core by simp
  from generate_mediation_matrix_tolerates [OF wf known i j cat]
  have "\<exists>m. generate_mediation_matrix d = Inr m \<and>
            m ! i ! j =
              (if categories d ! j \<in> {Framework, Core_lib}
                  \<or> startswith (entities d ! i) (split0 (entities d ! j) @ ''.'')
                  \<or> i = j
               then - 1 else 0)"
    using core by (simp add: tolerates_def)
  then show ?thesis using startswith_package_iff by blast
qed

theorem core_lib_row_witness:
  "(\<exists>m. generate_mediation_matrix
          \<lparr>categories = [Core_lib, App_module, Data], entities = [''lib.core'', ''lib.tools'', ''db''],
           dependency_matrix = [[0, 1, 0], [1, 0, 2], [0, 0, 0]], dsm_size = 3\<rparr> = Inr m \<and>
        m ! 0 ! 1 = - 1) \<and>
   (\<exists>m. generate_mediation_matrix
          \<lparr>categories = [Core_lib, App_module, Data], entities = [''lib.core'', ''lib.tools'', ''db''],
           dependency_matrix = [[0, 1, 0], [1, 0, 2], [0, 0, 0]], dsm_size = 3\<rparr> = Inr m \<and>
        m ! 0 ! 2 = 0)"
  using
    core_lib_row [of "\<lparr>categories = [Core_lib, App_module, Data], entities = [''lib.core'', ''lib.tools'', ''db''],
           dependency_matrix = [[0, 1, 0], [1, 0, 2], [0, 0, 0]], dsm_size = 3\<rparr>" 0 1]
    core_lib_row [of "\<lparr>categories = [Core_lib, App_module, Data], entities = [''lib.core'', ''lib.tools'', ''db''],
           dependency_matrix = [[0, 1, 0], [1, 0, 2], [0, 0, 0]], dsm_size = 3\<rparr>" 0 2]
  by (simp add: wf_dsm_def known_category_def startswith_def split0_def)

text \<open>
  Claim C1 as stated fails for an entity whose name has no dot: \<open>foo\<close> (core_lib)
  and \<open>foo.bar\<close> (app_module) have the same top-level package \<open>foo\<close>, yet the
  cell (0, 1) is 0, since \<open>'foo'.startswith('foo.')\<close> is false.
\<close>

theorem core_lib_same_package_counterexample:
  "generate_mediation_matrix
     \<lparr>categories = [Core_lib, App_module], entities = [''foo'', ''foo.bar''],
      dependency_matrix = [[0, 0], [0, 0]], dsm_size = 2\<rparr> = Inr [[- 1, 0], [- 1, - 1]]
   \<and> split0 ''foo'' = split0 ''foo.bar''"
  by code_simp

text \<open>
  Claim C4, as amended. For i \<noteq> j and category(i) among core_lib, app_lib, app_module
  and broker, the cell (i, j) is -1 exactly when category(j) is one of the categories
  that category(i) tolerates, or the name of entity i contains a dot and entity i and
  entity j have the same top-level package (the substring before the first dot); it is
  0 otherwise. This holds for both generators, each with its own table of tolerated
  categories. The package clause is \<open>ent[i].startswith(packages[j] + '.')\<close>: it does
  not apply to an entity i whose name has no dot, and so is not symmetric in i and j.
\<close>

theorem same_package_clause:
  assumes wf: "wf_dsm d" and known: "list_all known_category (categories d)"
    and i: "i < dsm_size d" and j: "j < dsm_size d" and neq: "i \<noteq> j"
    and cat: "categories d ! i \<in> {Core_lib, App_lib, App_module, Broker}"
  shows "(\<exists>m. generate_mediation_matrix d = Inr m \<and>
            m ! i ! j =
              (if categories d ! j \<in> set (tolerates (categories d ! i))
                  \<or> (CHR ''.'' \<in> set (entities d ! i)
                       \<and> split0 (entities d ! i) = split0 (entities d ! j))
               then - 1 else 0)) \<and>
         (\<exists>m. Archan_generate_mediation_matrix d = Inr m \<and>
            m ! i ! j =
              (if categories d ! j \<in> set (Archan_tolerates (categories d ! i))
                  \<or> (CHR ''.'' \<in> set (entities d ! i)
                       \<and> split0 (entities d ! i) = split0 (entities d ! j))
               then - 1 else 0))"
  using generate_mediation_matrix_tolerates [OF wf known i j cat]
    Archan_generate_mediation_matrix_cell [OF wf known i j cat] neq
  by (simp add: startswith_package_iff)

theorem same_package_clause_witness:
  "(\<exists>m. generate_mediation_matrix
          \<lparr>categories = [App_module, App_module, App_module], entities = [''shop.cart'', ''shop.pay'', ''blog''],
           dependency_matrix = [[0, 1, 0], [1, 0, 2], [0, 0, 0]], dsm_size = 3\<rparr> = Inr m \<and>
        m ! 0 ! 1 = - 1) \<and>
   (\<exists>m. generate_mediation_matrix
          \<lparr>categories = [App_module, App_module, App_module], entities = [''shop.cart'', ''shop.pay'', ''blog''],
           dependency_matrix = [[0, 1, 0], [1, 0, 2], [0, 0, 0]], dsm_size = 3\<rparr> = Inr m \<and>
        m ! 0 ! 2 = 0)"
  using
    same_package_clause [of "\<lparr>categories = [App_module, App_module, App_module],
           entities = [''shop.cart'', ''shop.pay'', ''blog''],
           dependency_matrix = [[0, 1, 0], [1, 0, 2], [0, 0, 0]], dsm_size = 3\<rparr>" 0 1]
    same_package_clause [of "\<lparr>categories = [App_module, App_module, App_module],
           entities = [''shop.cart'', ''shop.pay'', ''blog''],
           dependency_matrix = [[0, 1, 0], [1, 0, 2], [0, 0, 0]], dsm_size = 3\<rparr>" 0 2]
  by (simp add: wf_dsm_def known_category_def split0_def tolerates_def)

text \<open>
  Claim C4 as stated fails: \<open>foo\<close> and \<open>foo.bar\<close>, both app_module, have the same
  top-level package, but only the cell (1, 0) is tolerated; the cell (0, 1), whose
  source name has no dot, is 0. The clause is neither symmetric nor applicable to a
  name without a dot.
\<close>

theorem same_package_not_symmetric_counterexample:
  "generate_mediation_matrix
     \<lparr>categories = [App_module, App_module], entities = [''foo'', ''foo.bar''],
      dependency_matrix = [[0, 0], [0, 0]], dsm_size = 2\<rparr> = Inr [[- 1, 0], [- 1, - 1]]
   \<and> split0 ''foo'' = ''foo'' \<and> split0 ''foo.bar'' = ''foo''"
  by code_simp

subsection \<open>Claims about the Criterion class\<close>

text \<open>
  A criterion whose check takes one keyword parameter with a default, called without
  keyword arguments: the check runs with the default.
\<close>

lemma criterion_default_keyword:
  "call (Criterion cn t de h (Some (\<lambda>d kw. as_value (call_keyword name dflt f d kw))) []) d [] =
     (case f d dflt of Inl e \<Rightarrow> Inl e
      | Inr (b, msg) \<Rightarrow> Inr (if b then PASSED else FAILED, msg))"
  by (cases "f d dflt")
     (auto simp add: call_def Criterion_def call_keyword_def as_value_def)

text \<open>
  Claim C9. Calling a criterion whose check returns \<open>(success, message)\<close> gives
  \<open>(PASSED, message)\<close> when \<open>success\<close> is \<open>True\<close>, \<open>(FAILED, message)\<close> when it is
  \<open>False\<close>, and \<open>(NOT_IMPLEMENTED, message)\<close> for any other value such as \<open>None\<close>;
  the check is called with the keyword arguments of the call updated by those bound to
  the criterion. A criterion built without a check returns \<open>(NOT_IMPLEMENTED, '')\<close>.
  The three codes are distinct.
\<close>

theorem criterion_call_outcome:
  "(f args (AList.merge kw kws) = Inr (PyBool True, message) \<longrightarrow>
      call (Criterion cn t de h (Some f) kws) args kw = Inr (PASSED, message)) \<and>
   (f args (AList.merge kw kws) = Inr (PyBool False, message) \<longrightarrow>
      call (Criterion cn t de h (Some f) kws) args kw = Inr (FAILED, message)) \<and>
   (f args (AList.merge kw kws) = Inr (success, message) \<longrightarrow>
      success \<noteq> PyBool True \<longrightarrow> success \<noteq> PyBool False \<longrightarrow>
      call (Criterion cn t de h (Some f) kws) args kw = Inr (NOT_IMPLEMENTED, message)) \<and>
   call (Criterion cn t de h None kws) args kw = Inr (NOT_IMPLEMENTED, []) \<and>
   PASSED \<noteq> FAILED \<and> PASSED \<noteq> NOT_IMPLEMENTED \<and> FAILED \<noteq> NOT_IMPLEMENTED"
  by (simp add: call_def Criterion_def PASSED_def FAILED_def NOT_IMPLEMENTED_def)

theorem criterion_call_outcome_witness:
  "call (Criterion ''A'' ''a'' [] [] (Some (\<lambda>(x::int) kw. Inr (PyBool (0 < x), ''m''))) []) 1 [] = Inr (PASSED, ''m'') \<and>
   call (Criterion ''A'' ''a'' [] [] (Some (\<lambda>(x::int) kw. Inr (PyBool (0 < x), ''m''))) []) 0 [] = Inr (FAILED, ''m'') \<and>
   call (Criterion ''A'' ''a'' [] [] (Some (\<lambda>(x::int) kw. Inr (PyNone, ''m''))) []) 0 [] = Inr (NOT_IMPLEMENTED, ''m'') \<and>
   call (Criterion ''A'' ''a'' [] [] (Some (\<lambda>(x::int) kw. Inr (PyInt 1, ''m''))) []) 0 [] = Inr (NOT_IMPLEMENTED, ''m'') \<and>
   call (Criterion ''A'' ''a'' [] [] None []) (0::int) [] = Inr (NOT_IMPLEMENTED, [])"
  using
    criterion_call_outcome [of "\<lambda>(x::int) kw. Inr (PyBool (0 < x), ''m'')" 1 "[]" "[]" "''m''" "''A''" "''a''" "[]" "[]" PyNone]
    criterion_call_outcome [of "\<lambda>(x::int) kw. Inr (PyBool (0 < x), ''m'')" 0 "[]" "[]" "''m''" "''A''" "''a''" "[]" "[]" PyNone]
    criterion_call_outcome [of "\<lambda>(x::int) kw. Inr (PyNone, ''m'')" 0 "[]" "[]" "''m''" "''A''" "''a''" "[]" "[]" PyNone]
    criterion_call_outcome [of "\<lambda>(x::int) kw. Inr (PyInt 1, ''m'')" 0 "[]" "[]" "''m''" "''A''" "''a''" "[]" "[]" "PyInt 1"]
  by simp

text \<open>
  Claim C7, as amended. The criteria SEPARATION_OF_PRIVILEGES, LEAST_PRIVILEGES,
  OPEN_DESIGN and CODE_CLEAN of \<open>criterion.py\<close>, called on any matrix whatever (no
  size or shape is assumed), return \<open>(NOT_IMPLEMENTED, '')\<close>: never PASSED, FAILED
  or an exception. The methods of the same names of the older \<open>Archan\<close> class have
  no such result: \<open>check_separation_of_privileges\<close> and \<open>check_least_privileges\<close>
  return \<open>False\<close>, \<open>check_open_design\<close> returns whether all six checks are flagged
  as implemented (\<open>False\<close> for a new \<open>Archan\<close>), and \<open>check_code_clean\<close> prints a
  line and returns \<open>True\<close>.
\<close>

theorem stub_criteria_not_implemented:
  "call (SEPARATION_OF_PRIVILEGES rc) d [] = Inr (NOT_IMPLEMENTED, []) \<and>
   call (LEAST_PRIVILEGES rc) d [] = Inr (NOT_IMPLEMENTED, []) \<and>
   call (OPEN_DESIGN rc) d [] = Inr (NOT_IMPLEMENTED, []) \<and>
   call (CODE_CLEAN rc) d [] = Inr (NOT_IMPLEMENTED, []) \<and>
   NOT_IMPLEMENTED \<noteq> PASSED \<and> NOT_IMPLEMENTED \<noteq> FAILED \<and>
   Archan_check_separation_of_privileges self d = False \<and>
   Archan_check_least_privileges self d = False \<and>
   Archan_check_open_design Archan = False \<and>
   Archan_check_code_clean self = (True, [''No code issue found.''])"
  by (simp add: call_def Criterion_def call_plain_def
      SEPARATION_OF_PRIVILEGES_def LEAST_PRIVILEGES_def OPEN_DESIGN_def CODE_CLEAN_def
      check_separation_of_privileges_def check_least_privileges_def check_open_design_def
      check_code_clean_def PASSED_def FAILED_def NOT_IMPLEMENTED_def
      Archan_check_separation_of_privileges_def Archan_check_least_privileges_def
      Archan_check_open_design_def Archan_check_code_clean_def Archan_def)

theorem stub_criteria_not_implemented_witness:
  "call (SEPARATION_OF_PRIVILEGES (\<lambda>p. []))
      \<lparr>categories = [], entities = [], dependency_matrix = [], dsm_size = 0\<rparr> [] = Inr (- 1, []) \<and>
   call (CODE_CLEAN (\<lambda>p. []))
      \<lparr>categories = [App_module], entities = [''a''], dependency_matrix = [[1]], dsm_size = 1\<rparr> [] = Inr (- 1, [])"
  using
    stub_criteria_not_implemented [where rc = "\<lambda>p. []"
      and d = "\<lparr>categories = [], entities = [], dependency_matrix = [], dsm_size = 0\<rparr>"]
    stub_criteria_not_implemented [where rc = "\<lambda>p. []"
      and d = "\<lparr>categories = [App_module], entities = [''a''], dependency_matrix = [[1]], dsm_size = 1\<rparr>"]
  by (simp add: NOT_IMPLEMENTED_def)

text \<open>
  Claim C7 as stated fails on \<open>checker.py\<close>: \<open>Archan.check_code_clean\<close> reports
  success, with a line of output, and \<open>Archan.check_separation_of_privileges\<close> reports
  failure, here for a matrix with a single entity.
\<close>

theorem stub_criteria_counterexample:
  "Archan_check_code_clean Archan = (True, [''No code issue found.'']) \<and>
   Archan_check_separation_of_privileges Archan
     \<lparr>categories = [App_module], entities = [''a''], dependency_matrix = [[1]], dsm_size = 1\<rparr> = False"
  by (simp add: Archan_check_code_clean_def Archan_check_separation_of_privileges_def)

subsection \<open>Claims about the compliance comparison\<close>

lemma matrices_compliance_empty:
  "dependency_matrix d = [] \<or> med = [] \<Longrightarrow> matrices_compliance d med = Inl IndexError"
  by (auto simp add: matrices_compliance_def getitem_def Let_def)

lemma Archan_check_matrices_compliance_empty:
  "dependency_matrix d = [] \<or> med = [] \<Longrightarrow> Archan_check_matrices_compliance d med = Inl IndexError"
  by (auto simp add: Archan_check_matrices_compliance_def getitem_def Let_def)

text \<open>
  Claim C3, as amended. Given an observed and a mediation matrix, both with at least one
  row, whose numbers of rows differ or whose first rows differ in length,
  \<open>_matrices_compliance\<close> of \<open>criterion.py\<close> raises an ArchanError and returns no
  boolean. The older \<open>Archan._check_matrices_compliance\<close> of \<open>checker.py\<close> prints
  what differs and returns \<open>False\<close>.
\<close>

theorem dimension_mismatch:
  assumes "dependency_matrix d \<noteq> []" and "med \<noteq> []"
    and "length (dependency_matrix d) \<noteq> length med
           \<or> length (hd (dependency_matrix d)) \<noteq> length (hd med)"
  shows "matrices_compliance d med =
           Inl (ArchanError ''Matrices are NOT compliant (number of rows/columns not equal)'') \<and>
         Archan_check_matrices_compliance d med =
           Inr (False,
             [if length (dependency_matrix d) \<noteq> length med
              then ''Matrices are NOT compliant (number of rows not equals)''
              else ''Matrices are NOT compliant(number of columns not equals)''])"
proof -
  have "hd (dependency_matrix d) = dependency_matrix d ! 0" "hd med = med ! 0"
    using assms(1,2) by (simp_all add: hd_conv_nth)
  then show ?thesis
    using assms by (auto simp add: matrices_compliance_def Archan_check_matrices_compliance_def Let_def)
qed

theorem dimension_mismatch_witness:
  "matrices_compliance
     \<lparr>categories = [App_module, Data], entities = [''a'', ''b''],
      dependency_matrix = [[0, 1], [0, 0]], dsm_size = 2\<rparr> [[- 1, 0, 0], [0, - 1, 0], [0, 0, - 1]] =
     Inl (ArchanError ''Matrices are NOT compliant (number of rows/columns not equal)'')"
  using dimension_mismatch
    [of "\<lparr>categories = [App_module, Data], entities = [''a'', ''b''],
      dependency_matrix = [[0, 1], [0, 0]], dsm_size = 2\<rparr>" "[[- 1, 0, 0], [0, - 1, 0], [0, 0, - 1]]"]
  by simp

text \<open>
  Claim C3 as stated fails on \<open>checker.py\<close>: for a 2 by 2 observed matrix and a 1 by 1
  mediation matrix \<open>Archan._check_matrices_compliance\<close> returns \<open>False\<close>, the value
  it also returns for a matrix that is not compliant.
\<close>

theorem dimension_mismatch_counterexample:
  "Archan_check_matrices_compliance
     \<lparr>categories = [App_module, Data], entities = [''a'', ''b''],
      dependency_matrix = [[0, 1], [0, 0]], dsm_size = 2\<rparr> [[- 1]] =
     Inr (False, [''Matrices are NOT compliant (number of rows not equals)''])"
  by code_simp

subsection \<open>Nested loops over pairs of indices\<close>

lemma and_then_ext: "(\<And>x. f x = g x) \<Longrightarrow> and_then r f = and_then r g"
  by (cases r) simp_all

lemma for_each_map: "for_each (map f ks) body s = for_each ks (\<lambda>k. body (f k)) s"
proof (induction ks arbitrary: s)
  case Nil
  show ?case by simp
next
  case (Cons k ks)
  show ?case by (simp add: Cons.IH cong: and_then_ext)
qed

lemma for_each_nested:
  "for_each is (\<lambda>i. for_each (js i) (body i)) s =
   for_each (concat (map (\<lambda>i. map (Pair i) (js i)) is)) (\<lambda>(i, j). body i j) s"
proof (induction "is" arbitrary: s)
  case Nil
  show ?case by simp
next
  case (Cons i "is")
  have "for_each (map (Pair i) (js i)) (\<lambda>(i, j). body i j) s = for_each (js i) (body i) s"
    by (simp add: for_each_map)
  moreover have "and_then r (for_each is (\<lambda>i. for_each (js i) (body i))) =
      and_then r (for_each (concat (map (\<lambda>i. map (Pair i) (js i)) is)) (\<lambda>(i, j). body i j))" for r
    by (rule and_then_ext) (rule Cons.IH)
  ultimately show ?case by (simp add: for_each_append)
qed

lemma for_each_nested_pure:
  assumes "\<And>i j s. i \<in> set is \<Longrightarrow> j \<in> set (js i) \<Longrightarrow> body i j s = Inr (g i j s)"
  shows "for_each is (\<lambda>i. for_each (js i) (body i)) s =
         Inr (fold (\<lambda>(i, j). g i j) (concat (map (\<lambda>i. map (Pair i) (js i)) is)) s)"
proof -
  have "for_each (concat (map (\<lambda>i. map (Pair i) (js i)) is)) (\<lambda>(i, j). body i j) s =
        for_each (concat (map (\<lambda>i. map (Pair i) (js i)) is)) (\<lambda>p s. Inr ((\<lambda>(i, j). g i j) p s)) s"
    by (rule for_each_cong) (use assms in auto)
  then show ?thesis by (simp add: for_each_nested for_each_pure)
qed

lemma fold_count:
  "fold (\<lambda>p c. if Q p then c + 1 else c) ps (c::int) = c + int (length (filter Q ps))"
  by (induction ps arbitrary: c) simp_all

lemma square_pairs: "concat (map (\<lambda>i. map (Pair i) [0..<n]) [0..<n]) = List.product [0..<n] [0..<n]"
  by (simp add: product_concat_map)

lemma count_square:
  "length (filter (\<lambda>(i, j). P i j) (List.product [0..<n] [0..<n])) =
   card {(i, j). i < n \<and> j < n \<and> P i j}"
proof -
  have "distinct (List.product [0..<n] [0..<n])" by (simp add: distinct_product)
  then have "length (filter (\<lambda>(i, j). P i j) (List.product [0..<n] [0..<n])) =
      card ({p. (\<lambda>(i, j). P i j) p} \<inter> set (List.product [0..<n] [0..<n]))"
    by (rule distinct_length_filter)
  also have "{p. (\<lambda>(i, j). P i j) p} \<inter> set (List.product [0..<n] [0..<n]) =
      {(i, j). i < n \<and> j < n \<and> P i j}" by auto
  finally show ?thesis .
qed

lemma count_loop:
  assumes "\<And>i j c. i < n \<Longrightarrow> j < n \<Longrightarrow> body i j c = Inr (if P i j then c + 1 else c)"
  shows "for_each [0..<n] (\<lambda>i. for_each [0..<n] (body i)) (0::int) =
         Inr (int (card {(i, j). i < n \<and> j < n \<and> P i j}))"
proof -
  have "for_each [0..<n] (\<lambda>i. for_each [0..<n] (body i)) (0::int) =
        Inr (fold (\<lambda>(i, j) c. if P i j then c + 1 else c)
               (concat (map (\<lambda>i. map (Pair i) [0..<n]) [0..<n])) 0)"
    by (rule for_each_nested_pure) (use assms in auto)
  also have "(\<lambda>(i, j) c. if P i j then c + 1 else c) =
             (\<lambda>p c. if (\<lambda>(i, j). P i j) p then c + 1 else c)" by auto
  finally show ?thesis by (simp only: fold_count square_pairs count_square) simp
qed

subsection \<open>Claims about economy of mechanism\<close>

lemma economy_body_Inr:
  assumes "wf_dsm d" "i < dsm_size d" "j < dsm_size d"
  shows "economy_body d i j c =
     Inr (if categories d ! i \<notin> {Framework, Core_lib} \<and> categories d ! j \<notin> {Framework, Core_lib}
             \<and> 0 < dependency_matrix d ! i ! j then c + 1 else c)"
  using assms by (auto simp add: economy_body_def wf_dsm_def list_all_length)

lemma Archan_economy_body_Inr:
  assumes "wf_dsm d" "i < dsm_size d" "j < dsm_size d"
  shows "Archan_economy_body d i j c =
     Inr (if categories d ! i \<noteq> Framework \<and> categories d ! j \<noteq> Framework
             \<and> 0 < dependency_matrix d ! i ! j then c + 1 else c)"
  using assms by (auto simp add: Archan_economy_body_def wf_dsm_def list_all_length)

text \<open>
  Claim C2, as amended. For every DependencyMatrix and every simplicity factor, the
  economy-of-mechanism check of \<open>criterion.py\<close> counts the ordered pairs (i, j) with
  observed(i, j) > 0 in which neither category(i) nor category(j) is framework or
  core_lib, and passes exactly when this count is strictly less than N times the
  factor; on failure the message is the line written out below, which gives the count,
  N, the factor and the threshold N times the factor, in decimal. The factor is 2 when
  the criterion is called without one. The older \<open>Archan.check_economy_of_mechanism\<close>
  leaves out the pairs with a framework endpoint only, compares with N times its own
  \<open>simplicity_factor\<close> (2 for a new \<open>Archan\<close>), and prints the count, N and the
  factor.
\<close>

theorem economy_of_mechanism_count:
  assumes wf: "wf_dsm d"
  shows "check_economy_of_mechanism d k =
           (let c = int (card {(i, j). i < dsm_size d \<and> j < dsm_size d
                          \<and> categories d ! i \<notin> {Framework, Core_lib}
                          \<and> categories d ! j \<notin> {Framework, Core_lib}
                          \<and> 0 < dependency_matrix d ! i ! j})
            in if c < int (dsm_size d) * k then Inr (True, [])
               else Inr (False,
                 ''  Number of dependencies ('' @ str_int c @ '') > number of rows (''
                   @ str_nat (dsm_size d) @ '') * simplicity factor ('' @ str_int k @ '') = ''
                   @ str_int (int (dsm_size d) * k))) \<and>
         call (ECONOMY_OF_MECHANISM rc) d [] =
           (case check_economy_of_mechanism d 2 of
              Inl e \<Rightarrow> Inl e
            | Inr (b, msg) \<Rightarrow> Inr (if b then PASSED else FAILED, msg)) \<and>
         Archan_check_economy_of_mechanism self d =
           (let c = int (card {(i, j). i < dsm_size d \<and> j < dsm_size d
                          \<and> categories d ! i \<noteq> Framework \<and> categories d ! j \<noteq> Framework
                          \<and> 0 < dependency_matrix d ! i ! j})
            in if c < int (dsm_size d) * simplicity_factor self then Inr (True, [])
               else Inr (False,
                 [''dependency_number: '' @ str_int c,
                  ''rowsdep_matrix: '' @ str_nat (dsm_size d),
                  ''expected dependencies: '' @ str_int (simplicity_factor self)])) \<and>
         simplicity_factor Archan = 2"
proof -
  have a: "for_each [0..<dsm_size d] (\<lambda>i. for_each [0..<dsm_size d] (economy_body d i)) 0 =
      Inr (int (card {(i, j). i < dsm_size d \<and> j < dsm_size d
             \<and> (categories d ! i \<notin> {Framework, Core_lib} \<and> categories d ! j \<notin> {Framework, Core_lib}
             \<and> 0 < dependency_matrix d ! i ! j)}))"
    by (rule count_loop) (rule economy_body_Inr [OF wf])
  have b: "for_each [0..<dsm_size d] (\<lambda>i. for_each [0..<dsm_size d] (Archan_economy_body d i)) 0 =
      Inr (int (card {(i, j). i < dsm_size d \<and> j < dsm_size d
             \<and> (categories d ! i \<noteq> Framework \<and> categories d ! j \<noteq> Framework
             \<and> 0 < dependency_matrix d ! i ! j)}))"
    by (rule count_loop) (rule Archan_economy_body_Inr [OF wf])
  have new: "check_economy_of_mechanism d k =
           (let c = int (card {(i, j). i < dsm_size d \<and> j < dsm_size d
                          \<and> categories d ! i \<notin> {Framework, Core_lib}
                          \<and> categories d ! j \<notin> {Framework, Core_lib}
                          \<and> 0 < dependency_matrix d ! i ! j})
            in if c < int (dsm_size d) * k then Inr (True, [])
               else Inr (False,
                 ''  Number of dependencies ('' @ str_int c @ '') > number of rows (''
                   @ str_nat (dsm_size d) @ '') * simplicity factor ('' @ str_int k @ '') = ''
                   @ str_int (int (dsm_size d) * k)))"
    unfolding check_economy_of_mechanism_def Let_def a by (simp add: economy_message_def)
  have dflt: "call (ECONOMY_OF_MECHANISM rc) d [] =
           (case check_economy_of_mechanism d 2 of
              Inl e \<Rightarrow> Inl e
            | Inr (b, msg) \<Rightarrow> Inr (if b then PASSED else FAILED, msg))"
    unfolding ECONOMY_OF_MECHANISM_def by (rule criterion_default_keyword)
  have old: "Archan_check_economy_of_mechanism self d =
           (let c = int (card {(i, j). i < dsm_size d \<and> j < dsm_size d
                          \<and> categories d ! i \<noteq> Framework \<and> categories d ! j \<noteq> Framework
                          \<and> 0 < dependency_matrix d ! i ! j})
            in if c < int (dsm_size d) * simplicity_factor self then Inr (True, [])
               else Inr (False,
                 [''dependency_number: '' @ str_int c,
                  ''rowsdep_matrix: '' @ str_nat (dsm_size d),
                  ''expected dependencies: '' @ str_int (simplicity_factor self)]))"
    unfolding Archan_check_economy_of_mechanism_def Let_def b by simp
  have "simplicity_factor Archan = 2" by (simp add: Archan_def)
  with new dflt old show ?thesis by (intro conjI)
qed

text \<open>
  Three application modules with seven positive cells against the factor 2: the count
  7 is not less than 3 * 2 = 6. Called without a factor, the criterion fails with the
  same line.
\<close>

theorem economy_of_mechanism_count_witness:
  "wf_dsm \<lparr>categories = [App_module, App_module, App_module], entities = [''a.x'', ''b.y'', ''c.z''],
           dependency_matrix = [[1, 2, 3], [1, 1, 0], [4, 0, 1]], dsm_size = 3\<rparr> \<and>
   check_economy_of_mechanism
     \<lparr>categories = [App_module, App_module, App_module], entities = [''a.x'', ''b.y'', ''c.z''],
      dependency_matrix = [[1, 2, 3], [1, 1, 0], [4, 0, 1]], dsm_size = 3\<rparr> 2 =
     Inr (False, ''  Number of dependencies (7) > number of rows (3) * simplicity factor (2) = 6'') \<and>
   call (ECONOMY_OF_MECHANISM (\<lambda>p. []))
     \<lparr>categories = [App_module, App_module, App_module], entities = [''a.x'', ''b.y'', ''c.z''],
      dependency_matrix = [[1, 2, 3], [1, 1, 0], [4, 0, 1]], dsm_size = 3\<rparr> [] =
     Inr (0, ''  Number of dependencies (7) > number of rows (3) * simplicity factor (2) = 6'') \<and>
   (let c = int (card {(i, j). i < (3::nat) \<and> j < (3::nat)
                  \<and> [App_module, App_module, App_module] ! i \<notin> {Framework, Core_lib}
                  \<and> [App_module, App_module, App_module] ! j \<notin> {Framework, Core_lib}
                  \<and> 0 < [[1, 2, 3], [1, 1, 0], [4, 0, 1 :: int]] ! i ! j})
    in if c < int 3 * 2 then Inr (True, [])
       else Inr (False,
         ''  Number of dependencies ('' @ str_int c @ '') > number of rows (''
           @ str_nat 3 @ '') * simplicity factor ('' @ str_int 2 @ '') = ''
           @ str_int (int 3 * 2))) =
     (Inr (False, ''  Number of dependencies (7) > number of rows (3) * simplicity factor (2) = 6'')
        :: error + bool \<times> string)"
proof -
  let ?D = "\<lparr>categories = [App_module, App_module, App_module], entities = [''a.x'', ''b.y'', ''c.z''],
           dependency_matrix = [[1, 2, 3], [1, 1, 0], [4, 0, 1]], dsm_size = 3\<rparr>"
  have wf: "wf_dsm ?D" by (simp add: wf_dsm_def)
  have r: "check_economy_of_mechanism ?D 2 =
      Inr (False, ''  Number of dependencies (7) > number of rows (3) * simplicity factor (2) = 6'')"
    by code_simp
  from economy_of_mechanism_count [OF wf, of 2 "\<lambda>p. []" Archan]
  have new: "check_economy_of_mechanism ?D 2 =
           (let c = int (card {(i, j). i < dsm_size ?D \<and> j < dsm_size ?D
                          \<and> categories ?D ! i \<notin> {Framework, Core_lib}
                          \<and> categories ?D ! j \<notin> {Framework, Core_lib}
                          \<and> 0 < dependency_matrix ?D ! i ! j})
            in if c < int (dsm_size ?D) * 2 then Inr (True, [])
               else Inr (False,
                 ''  Number of dependencies ('' @ str_int c @ '') > number of rows (''
                   @ str_nat (dsm_size ?D) @ '') * simplicity factor ('' @ str_int 2 @ '') = ''
                   @ str_int (int (dsm_size ?D) * 2)))"
    and dflt: "call (ECONOMY_OF_MECHANISM (\<lambda>p. [])) ?D [] =
           (case check_economy_of_mechanism ?D 2 of
              Inl e \<Rightarrow> Inl e
            | Inr (b, msg) \<Rightarrow> Inr (if b then PASSED else FAILED, msg))"
    by blast+
  from dflt r have c: "call (ECONOMY_OF_MECHANISM (\<lambda>p. [])) ?D [] =
     Inr (0, ''  Number of dependencies (7) > number of rows (3) * simplicity factor (2) = 6'')"
    by (simp add: FAILED_def)
  from new r wf c show ?thesis by simp
qed

text \<open>
  Claim C2 as stated fails on \<open>criterion.py\<close>: with two core libraries that depend on
  each other and on themselves there are four pairs without a framework endpoint, which
  is not less than 2 * 2; the check nevertheless passes, because it leaves pairs with a
  core_lib endpoint out of the count as well. \<open>Archan.check_economy_of_mechanism\<close>
  counts the four pairs and fails.
\<close>

theorem economy_of_mechanism_counterexample:
  "check_economy_of_mechanism
     \<lparr>categories = [Core_lib, Core_lib], entities = [''a.x'', ''b.y''],
      dependency_matrix = [[1, 1], [1, 1]], dsm_size = 2\<rparr> 2 = Inr (True, []) \<and>
   Archan_check_economy_of_mechanism Archan
     \<lparr>categories = [Core_lib, Core_lib], entities = [''a.x'', ''b.y''],
      dependency_matrix = [[1, 1], [1, 1]], dsm_size = 2\<rparr> =
     Inr (False, [''dependency_number: 4'', ''rowsdep_matrix: 2'', ''expected dependencies: 2''])"
  by code_simp

subsection \<open>Claims about the layered architecture\<close>

lemma fold_violations:
  "fold (\<lambda>p s. if V p then (False, snd s @ [g p]) else s) ps (b, ms) =
   (b \<and> \<not> (\<exists>p \<in> set ps. V p), ms @ map g (filter V ps))"
  by (induction ps arbitrary: b ms) auto

lemma upper_pairs_set:
  "set (concat (map (\<lambda>i. map (Pair i) [i + 1..<n]) [0..<n - 1])) = {(i, j). i < j \<and> j < n}"
proof -
  have "(a, b) \<in> set (concat (map (\<lambda>i. map (Pair i) [i + 1..<n]) [0..<n - 1])) \<longleftrightarrow> a < b \<and> b < n"
    for a b
  proof
    assume "(a, b) \<in> set (concat (map (\<lambda>i. map (Pair i) [i + 1..<n]) [0..<n - 1]))"
    then show "a < b \<and> b < n" by auto
  next
    assume ab: "a < b \<and> b < n"
    then have "a < n - 1" by arith
    moreover have "b \<in> {a + 1..<n}" using ab by simp
    ultimately show "(a, b) \<in> set (concat (map (\<lambda>i. map (Pair i) [i + 1..<n]) [0..<n - 1]))"
      by (simp add: image_iff) 
  qed
  then show ?thesis by (intro set_eqI) (simp add: split_paired_all del: set_concat)
qed

lemma upper_pairs_distinct:
  "distinct (concat (map (\<lambda>i. map (Pair i) [i + 1..<n]) [0..<n - 1]))"
proof (rule distinct_concat)
  have "inj_on (\<lambda>i. map (Pair i) [i + 1..<n]) (set [0..<n - 1])"
  proof (rule inj_onI)
    fix x y
    assume x: "x \<in> set [0..<n - 1]" and y: "y \<in> set [0..<n - 1]"
      and eq: "map (Pair x) [x + 1..<n] = map (Pair y) [y + 1..<n]"
    have "x + 1 < n" "y + 1 < n" using x y by auto
    then have "[x + 1..<n] = (x + 1) # [Suc (x + 1)..<n]" "[y + 1..<n] = (y + 1) # [Suc (y + 1)..<n]"
      by (simp_all only: upt_conv_Cons)
    with eq show "x = y" by simp
  qed
  then show "distinct (map (\<lambda>i. map (Pair i) [i + 1..<n]) [0..<n - 1])"
    by (simp add: distinct_map)
next
  fix ys assume "ys \<in> set (map (\<lambda>i. map (Pair i) [i + 1..<n]) [0..<n - 1])"
  then show "distinct ys" by (auto simp add: distinct_map inj_on_def)
next
  fix ys zs
  assume "ys \<in> set (map (\<lambda>i. map (Pair i) [i + 1..<n]) [0..<n - 1])"
    "zs \<in> set (map (\<lambda>i. map (Pair i) [i + 1..<n]) [0..<n - 1])" "ys \<noteq> zs"
  then show "set ys \<inter> set zs = {}" by auto
qed

lemma layered_body_Inr:
  assumes "wf_dsm d" "i < j" "j < dsm_size d"
  shows "layered_body d i j s =
     Inr (if categories d ! i \<noteq> Broker \<and> categories d ! j \<noteq> Broker
             \<and> split0 (entities d ! i) \<noteq> split0 (entities d ! j)
             \<and> 0 < dependency_matrix d ! i ! j
          then (False, snd s @ [layered_message (entities d ! i) (entities d ! j)]) else s)"
  using assms by (auto simp add: layered_body_def wf_dsm_def list_all_length)

text \<open>
  Claim C5. For every DependencyMatrix, the layered-architecture check fails exactly
  when some pair (i, j) with i < j has neither category(i) nor category(j) equal to
  broker, different top-level packages for entity(i) and entity(j) (the parts of the
  names before the first dot), and observed(i, j) > 0. The message has one line per
  such pair, in the order of the rows and then of the columns, each pair once; the line
  is written out below and contains the names of the source and of the target entity.
  Only pairs with i < j are looked at, so a cell below the diagonal never makes the
  check fail.
\<close>

theorem layered_architecture_violations:
  assumes wf: "wf_dsm d"
  shows "\<exists>vs. vs = filter (\<lambda>(i, j). categories d ! i \<noteq> Broker \<and> categories d ! j \<noteq> Broker
                      \<and> takeWhile (\<lambda>c. c \<noteq> CHR ''.'') (entities d ! i)
                          \<noteq> takeWhile (\<lambda>c. c \<noteq> CHR ''.'') (entities d ! j)
                      \<and> 0 < dependency_matrix d ! i ! j)
                  (concat (map (\<lambda>i. map (Pair i) [i + 1..<dsm_size d]) [0..<dsm_size d - 1])) \<and>
           distinct vs \<and>
           set vs = {(i, j). i < j \<and> j < dsm_size d
                      \<and> categories d ! i \<noteq> Broker \<and> categories d ! j \<noteq> Broker
                      \<and> takeWhile (\<lambda>c. c \<noteq> CHR ''.'') (entities d ! i)
                          \<noteq> takeWhile (\<lambda>c. c \<noteq> CHR ''.'') (entities d ! j)
                      \<and> 0 < dependency_matrix d ! i ! j} \<and>
           check_layered_architecture d =
             Inr (\<not> (\<exists>i j. i < j \<and> j < dsm_size d
                      \<and> categories d ! i \<noteq> Broker \<and> categories d ! j \<noteq> Broker
                      \<and> takeWhile (\<lambda>c. c \<noteq> CHR ''.'') (entities d ! i)
                          \<noteq> takeWhile (\<lambda>c. c \<noteq> CHR ''.'') (entities d ! j)
                      \<and> 0 < dependency_matrix d ! i ! j),
                  join [CHR 0x0A]
                    (map (\<lambda>(i, j). ''  Dependency from '' @ entities d ! i @ '' to '' @ entities d ! j
                                     @ '' breaks the layered architecture.'') vs))"
proof -
  let ?n = "dsm_size d"
  let ?V = "\<lambda>(i, j). categories d ! i \<noteq> Broker \<and> categories d ! j \<noteq> Broker
             \<and> takeWhile (\<lambda>c. c \<noteq> CHR ''.'') (entities d ! i)
                 \<noteq> takeWhile (\<lambda>c. c \<noteq> CHR ''.'') (entities d ! j)
             \<and> 0 < dependency_matrix d ! i ! j"
  let ?g = "\<lambda>(i, j). ''  Dependency from '' @ entities d ! i @ '' to '' @ entities d ! j
                                     @ '' breaks the layered architecture.''"
  let ?ps = "concat (map (\<lambda>i. map (Pair i) [i + 1..<?n]) [0..<?n - 1])"
  let ?vs = "filter ?V ?ps"
  have body: "layered_body d i j s = Inr (if ?V (i, j) then (False, snd s @ [?g (i, j)]) else s)"
    if "i < j" "j < ?n" for i j s
    using layered_body_Inr [OF wf that]
    by (simp add: split0_takeWhile layered_message_def)
  have "for_each [0..<?n - 1] (\<lambda>i. for_each [i + 1..<?n] (layered_body d i)) (True, []) =
        Inr (fold (\<lambda>(i, j) s. if ?V (i, j) then (False, snd s @ [?g (i, j)]) else s) ?ps (True, []))"
    by (rule for_each_nested_pure) (use body in auto)
  also have "(\<lambda>(i, j) s. if ?V (i, j) then (False, snd s @ [?g (i, j)]) else s) =
             (\<lambda>p s. if ?V p then (False, snd s @ [?g p]) else s)" by auto
  finally have loop: "for_each [0..<?n - 1] (\<lambda>i. for_each [i + 1..<?n] (layered_body d i)) (True, []) =
        Inr (\<not> (\<exists>p \<in> set ?ps. ?V p), map ?g ?vs)"
    by (simp only: fold_violations) simp
  have ex: "(\<exists>p \<in> set ?ps. ?V p) \<longleftrightarrow>
      (\<exists>i j. i < j \<and> j < ?n \<and> categories d ! i \<noteq> Broker \<and> categories d ! j \<noteq> Broker
             \<and> takeWhile (\<lambda>c. c \<noteq> CHR ''.'') (entities d ! i)
                 \<noteq> takeWhile (\<lambda>c. c \<noteq> CHR ''.'') (entities d ! j)
             \<and> 0 < dependency_matrix d ! i ! j)"
    unfolding upper_pairs_set by auto
  have "distinct ?vs" using upper_pairs_distinct by (rule distinct_filter)
  moreover have "set ?vs = {(i, j). i < j \<and> j < ?n
                      \<and> categories d ! i \<noteq> Broker \<and> categories d ! j \<noteq> Broker
                      \<and> takeWhile (\<lambda>c. c \<noteq> CHR ''.'') (entities d ! i)
                          \<noteq> takeWhile (\<lambda>c. c \<noteq> CHR ''.'') (entities d ! j)
                      \<and> 0 < dependency_matrix d ! i ! j}"
    unfolding set_filter upper_pairs_set by auto
  moreover have "check_layered_architecture d =
      Inr (\<not> (\<exists>i j. i < j \<and> j < ?n \<and> categories d ! i \<noteq> Broker \<and> categories d ! j \<noteq> Broker
             \<and> takeWhile (\<lambda>c. c \<noteq> CHR ''.'') (entities d ! i)
                 \<noteq> takeWhile (\<lambda>c. c \<noteq> CHR ''.'') (entities d ! j)
             \<and> 0 < dependency_matrix d ! i ! j), join [CHR 0x0A] (map ?g ?vs))"
    unfolding check_layered_architecture_def loop ex by (simp add: newline_def)
  ultimately show ?thesis by blast
qed

text \<open>
  Four application modules \<open>a.x\<close>, \<open>a.y\<close>, \<open>b.z\<close> and \<open>c\<close>. In the first matrix
  \<open>a.x\<close> depends on the three others and \<open>a.y\<close> on \<open>c\<close>: the edge to \<open>a.y\<close> stays
  inside the package \<open>a\<close>, the other three are reported, one line each. In the second
  matrix the only edges are that same-package edge and edges below the diagonal, and
  the check passes.
\<close>

theorem layered_architecture_violations_witness:
  "wf_dsm \<lparr>categories = [App_module, App_module, App_module, App_module],
           entities = [''a.x'', ''a.y'', ''b.z'', ''c''],
           dependency_matrix = [[0, 1, 2, 1], [0, 0, 0, 3], [0, 0, 0, 0], [0, 0, 0, 0]],
           dsm_size = 4\<rparr> \<and>
   check_layered_architecture
     \<lparr>categories = [App_module, App_module, App_module, App_module],
      entities = [''a.x'', ''a.y'', ''b.z'', ''c''],
      dependency_matrix = [[0, 1, 2, 1], [0, 0, 0, 3], [0, 0, 0, 0], [0, 0, 0, 0]],
      dsm_size = 4\<rparr> =
     Inr (False,
       ''  Dependency from a.x to b.z breaks the layered architecture.'' @ [CHR 0x0A] @
       ''  Dependency from a.x to c breaks the layered architecture.'' @ [CHR 0x0A] @
       ''  Dependency from a.y to c breaks the layered architecture.'') \<and>
   check_layered_architecture
     \<lparr>categories = [App_module, App_module, App_module, App_module],
      entities = [''a.x'', ''a.y'', ''b.z'', ''c''],
      dependency_matrix = [[0, 1, 0, 0], [5, 0, 0, 0], [1, 1, 0, 0], [1, 0, 2, 0]],
      dsm_size = 4\<rparr> = Inr (True, [])"
proof -
  let ?D = "\<lparr>categories = [App_module, App_module, App_module, App_module],
           entities = [''a.x'', ''a.y'', ''b.z'', ''c''],
           dependency_matrix = [[0, 1, 2, 1], [0, 0, 0, 3], [0, 0, 0, 0], [0, 0, 0, 0]],
           dsm_size = 4\<rparr>"
  let ?E = "\<lparr>categories = [App_module, App_module, App_module, App_module],
      entities = [''a.x'', ''a.y'', ''b.z'', ''c''],
      dependency_matrix = [[0, 1, 0, 0], [5, 0, 0, 0], [1, 1, 0, 0], [1, 0, 2, 0]],
      dsm_size = 4\<rparr>"
  have wf: "wf_dsm ?D" "wf_dsm ?E" by (simp_all add: wf_dsm_def)
  from layered_architecture_violations [OF wf(2)] obtain vs where
    vs: "vs = filter (\<lambda>(i, j). categories ?E ! i \<noteq> Broker \<and> categories ?E ! j \<noteq> Broker
                      \<and> takeWhile (\<lambda>c. c \<noteq> CHR ''.'') (entities ?E ! i)
                          \<noteq> takeWhile (\<lambda>c. c \<noteq> CHR ''.'') (entities ?E ! j)
                      \<and> 0 < dependency_matrix ?E ! i ! j)
                  (concat (map (\<lambda>i. map (Pair i) [i + 1..<dsm_size ?E]) [0..<dsm_size ?E - 1]))"
    and r: "check_layered_architecture ?E =
      Inr (\<not> (\<exists>i j. i < j \<and> j < dsm_size ?E \<and> categories ?E ! i \<noteq> Broker \<and> categories ?E ! j \<noteq> Broker
             \<and> takeWhile (\<lambda>c. c \<noteq> CHR ''.'') (entities ?E ! i)
                 \<noteq> takeWhile (\<lambda>c. c \<noteq> CHR ''.'') (entities ?E ! j)
             \<and> 0 < dependency_matrix ?E ! i ! j),
           join [CHR 0x0A]
             (map (\<lambda>(i, j). ''  Dependency from '' @ entities ?E ! i @ '' to '' @ entities ?E ! j
                                     @ '' breaks the layered architecture.'') vs))"
    by blast
  have "vs = []" unfolding vs by code_simp
  moreover have "fst (projr (check_layered_architecture ?E)) = True" by code_simp
  ultimately have e: "check_layered_architecture ?E = Inr (True, [])" using r by simp
  have "check_layered_architecture ?D =
     Inr (False,
       ''  Dependency from a.x to b.z breaks the layered architecture.'' @ [CHR 0x0A] @
       ''  Dependency from a.x to c breaks the layered architecture.'' @ [CHR 0x0A] @
       ''  Dependency from a.y to c breaks the layered architecture.'')"
    by code_simp
  with wf e show ?thesis by simp
qed

subsection \<open>Claims about the least common mechanism\<close>

lemma max_list_Max: "xs \<noteq> [] \<Longrightarrow> max_list xs = Inr (Max (set xs))"
proof (cases xs)
  case Nil
  assume "xs \<noteq> []"
  with Nil show ?thesis by simp
next
  case (Cons x ys)
  have "Max (set (x # ys)) = fold max ys x" by (rule Max.set_eq_fold)
  with Cons show ?thesis by simp
qed

lemma index_first:
  "v \<in> set xs \<Longrightarrow> \<exists>q. index xs v = Inr q \<and> q < length xs \<and> xs ! q = v \<and> (\<forall>p<q. xs ! p \<noteq> v)"
proof (induction xs)
  case Nil
  then show ?case by simp
next
  case (Cons x xs)
  show ?case
  proof (cases "x = v")
    case True
    then show ?thesis by simp
  next
    case False
    with Cons.prems have "v \<in> set xs" by simp
    from Cons.IH [OF this] obtain q
      where q: "index xs v = Inr q" "q < length xs" "xs ! q = v" "\<forall>p<q. xs ! p \<noteq> v" by blast
    have "\<forall>p<Suc q. (x # xs) ! p \<noteq> v"
    proof (intro allI impI)
      fix p assume "p < Suc q"
      then show "(x # xs) ! p \<noteq> v" using False q(4) by (cases p) simp_all
    qed
    with False q show ?thesis by simp
  qed
qed

lemma common_body_Inr:
  assumes "wf_dsm d" "i < dsm_size d" "j < dsm_size d" "length s0 = j"
  shows "common_body d j i (s0 @ [c]) =
     Inr (s0 @ [if categories d ! i \<noteq> Framework \<and> categories d ! j \<noteq> Framework
                   \<and> 0 < dependency_matrix d ! i ! j then c + 1 else c])"
  using assms by (auto simp add: common_body_def wf_dsm_def list_all_length)

lemma common_column:
  assumes wf: "wf_dsm d" and j: "j < dsm_size d" and len: "length s0 = j"
  shows "for_each [0..<dsm_size d] (common_body d j) (s0 @ [0]) =
     Inr (s0 @ [int (length (filter (\<lambda>i. categories d ! i \<noteq> Framework \<and> categories d ! j \<noteq> Framework
                   \<and> 0 < dependency_matrix d ! i ! j) [0..<dsm_size d]))])"
proof -
  let ?P = "\<lambda>i. categories d ! i \<noteq> Framework \<and> categories d ! j \<noteq> Framework
                   \<and> 0 < dependency_matrix d ! i ! j"
  have "\<exists>s'. for_each [0..<dsm_size d] (common_body d j) (s0 @ [0]) = Inr s' \<and>
          s' = s0 @ [int (length (filter ?P [0..<dsm_size d]))]"
  proof (rule for_each_upt_rule [where P = "\<lambda>k s. s = s0 @ [int (length (filter ?P [0..<k]))]"])
    show "s0 @ [0] = s0 @ [int (length (filter ?P [0..<0]))]" by simp
  next
    fix k t
    assume k: "k < dsm_size d" and t: "t = s0 @ [int (length (filter ?P [0..<k]))]"
    show "\<exists>t'. common_body d j k t = Inr t' \<and> t' = s0 @ [int (length (filter ?P [0..<Suc k]))]"
      unfolding t common_body_Inr [OF wf k j len] by simp
  qed
  then show ?thesis by simp
qed

lemma common_counts_Inr:
  assumes wf: "wf_dsm d"
  shows "common_counts d =
     Inr (map (\<lambda>j. int (length (filter (\<lambda>i. categories d ! i \<noteq> Framework \<and> categories d ! j \<noteq> Framework
                   \<and> 0 < dependency_matrix d ! i ! j) [0..<dsm_size d]))) [0..<dsm_size d])"
proof -
  let ?deg = "\<lambda>j. int (length (filter (\<lambda>i. categories d ! i \<noteq> Framework \<and> categories d ! j \<noteq> Framework
                   \<and> 0 < dependency_matrix d ! i ! j) [0..<dsm_size d]))"
  let ?body = "\<lambda>j s. for_each [0..<dsm_size d] (common_body d j) (s @ [0])"
  have "\<exists>s'. for_each [0..<dsm_size d] ?body [] = Inr s' \<and> s' = map ?deg [0..<dsm_size d]"
  proof (rule for_each_upt_rule [where P = "\<lambda>j s. s = map ?deg [0..<j]"])
    show "[] = map ?deg [0..<0]" by simp
  next
    fix j t
    assume j: "j < dsm_size d" and t: "t = map ?deg [0..<j]"
    have "length t = j" using t by simp
    from common_column [OF wf j this]
    show "\<exists>t'. ?body j t = Inr t' \<and> t' = map ?deg [0..<Suc j]" using t by simp
  qed
  then show ?thesis by (simp add: common_counts_def)
qed

lemma enumerate_list_map: "enumerate_list xs = map (\<lambda>k. (k, xs ! k)) [0..<length xs]"
  by (rule nth_equalityI) (simp_all add: enumerate_list_def)

lemma common_exempt_Inr:
  assumes len: "length s0 = length (categories d)"
  shows "common_exempt d s0 =
     Inr (map (\<lambda>k. if categories d ! k = Broker \<or> categories d ! k = App_lib then 0 else s0 ! k)
            [0..<length (categories d)])"
proof -
  let ?n = "length (categories d)"
  let ?ex = "\<lambda>k. categories d ! k = Broker \<or> categories d ! k = App_lib"
  let ?body = "\<lambda>k s. if ?ex k then setitem s k 0 else Inr s"
  let ?I = "\<lambda>k s. length s = ?n \<and> (\<forall>q<?n. s ! q = (if q < k \<and> ?ex q then 0 else s0 ! q))"
  have "\<exists>s'. for_each [0..<?n] ?body s0 = Inr s' \<and> ?I ?n s'"
  proof (rule for_each_upt_rule [where P = ?I])
    show "?I 0 s0" using len by simp
  next
    fix k t assume k: "k < ?n" and t: "?I k t"
    show "\<exists>t'. ?body k t = Inr t' \<and> ?I (Suc k) t'"
    proof (cases "?ex k")
      case True
      then have "?body k t = Inr (t[k := 0])" using k t by simp
      moreover have "?I (Suc k) (t[k := 0])"
        using True t k by (auto simp add: nth_list_update less_Suc_eq)
      ultimately show ?thesis by blast
    next
      case False
      then have "?body k t = Inr t" by simp
      moreover have "?I (Suc k) t" using False t by (auto simp add: less_Suc_eq)
      ultimately show ?thesis by blast
    qed
  qed
  then obtain s' where s': "for_each [0..<?n] ?body s0 = Inr s'" "?I ?n s'" by blast
  have "s' = map (\<lambda>k. if ?ex k then 0 else s0 ! k) [0..<?n]"
    using s'(2) by (intro nth_equalityI) simp_all
  moreover have "common_exempt d s0 = for_each [0..<?n] ?body s0"
    by (simp add: common_exempt_def enumerate_list_map for_each_map)
  ultimately show ?thesis using s'(1) by simp
qed

lemma floor_bound: "mx \<le> int n div k \<longleftrightarrow> real_of_int mx \<le> real n / real_of_int k"
proof -
  have "\<lfloor>real_of_int (int n) / real_of_int k\<rfloor> = int n div k"
    by (rule floor_divide_of_int_eq)
  then have "mx \<le> int n div k \<longleftrightarrow> mx \<le> \<lfloor>real_of_int (int n) / real_of_int k\<rfloor>" by simp
  also have "\<dots> \<longleftrightarrow> real_of_int mx \<le> real_of_int (int n) / real_of_int k" by (rule le_floor_iff)
  finally show ?thesis by simp
qed


lemma count_column: "length (filter P [0..<n]) = card {i. i < n \<and> P i}"
proof -
  have "length (filter P [0..<n]) = card ({i. P i} \<inter> set [0..<n])"
    by (rule distinct_length_filter) simp
  also have "{i. P i} \<inter> set [0..<n] = {i. i < n \<and> P i}" by auto
  finally show ?thesis .
qed

lemma common_in_degrees:
  assumes wf: "wf_dsm d"
  shows "and_then (common_counts d) (common_exempt d) =
     Inr (map (\<lambda>j. if categories d ! j = Broker \<or> categories d ! j = App_lib then 0
                     else int (card {i. i < dsm_size d \<and> categories d ! i \<noteq> Framework
                                  \<and> categories d ! j \<noteq> Framework \<and> 0 < dependency_matrix d ! i ! j}))
            [0..<dsm_size d])"
proof -
  have n: "length (categories d) = dsm_size d" using wf by (simp add: wf_dsm_def)
  show ?thesis
    unfolding common_counts_Inr [OF wf]
    by (simp add: common_exempt_Inr n count_column)
qed

text \<open>On a matrix without entities \<open>max\<close> is applied to an empty list.\<close>

lemma least_common_mechanism_empty:
  assumes "categories d = []" and "dsm_size d = 0"
  shows "check_least_common_mechanism fmt d k = Inl ValueError"
  using assms
  by (simp add: check_least_common_mechanism_def common_counts_def common_exempt_def enumerate_list_def)

text \<open>
  Claim C6, as amended. For every DependencyMatrix (N at least 1) and every positive
  independence factor, the least-common-mechanism check computes for each entity j the
  number of entities i, possibly j itself, with observed(i, j) > 0 where neither
  category(i) nor category(j) is framework, replaces the number by 0 for every entity of
  category broker or app_lib, and passes exactly when the maximum of these in-degrees is
  at most N divided by the factor, as a real quotient. The factor is 5 when the
  criterion is called without one. On failure the message of \<open>criterion.py\<close> is the
  line written out below: it names the first entity whose in-degree is the maximum and
  gives that in-degree, N and the factor in decimal, followed by the quotient. The
  older \<open>Archan.check_least_common_mechanism\<close> (factor 5 for a new \<open>Archan\<close>) passes
  in exactly the same cases, but on failure prints only the maximum and the floor of N
  divided by the factor: no entity name, N or factor.
\<close>

theorem least_common_mechanism_bound:
  assumes wf: "wf_dsm d" and n: "0 < dsm_size d" and k: "0 < k"
  shows "\<exists>degs mx q.
           degs = map (\<lambda>j. if categories d ! j = Broker \<or> categories d ! j = App_lib then 0
                     else int (card {i. i < dsm_size d \<and> categories d ! i \<noteq> Framework
                                  \<and> categories d ! j \<noteq> Framework \<and> 0 < dependency_matrix d ! i ! j}))
                    [0..<dsm_size d] \<and>
           mx = Max (set degs) \<and> q < dsm_size d \<and> degs ! q = mx \<and> (\<forall>p<q. degs ! p \<noteq> mx) \<and>
           check_least_common_mechanism fmt d k =
             (if real_of_int mx \<le> real (dsm_size d) / real_of_int k then Inr (True, [])
              else Inr (False,
                ''  Dependencies to '' @ entities d ! q @ '' ('' @ str_int mx
                  @ '') > matrix size ('' @ str_nat (dsm_size d)
                  @ '') / independence factor ('' @ str_int k @ '') = ''
                  @ fmt (real (dsm_size d) / real_of_int k))) \<and>
           call (LEAST_COMMON_MECHANISM fmt rc) d [] =
             (case check_least_common_mechanism fmt d 5 of
                Inl e \<Rightarrow> Inl e
              | Inr (b, msg) \<Rightarrow> Inr (if b then PASSED else FAILED, msg)) \<and>
           (independence_factor self = k \<longrightarrow>
              Archan_check_least_common_mechanism self d =
                (if real_of_int mx \<le> real (dsm_size d) / real_of_int k then Inr (True, [])
                 else Inr (False,
                   [''max number of dependencies to a module: '' @ str_int mx,
                    ''max number of expected dependencies: '' @ str_int (int (dsm_size d) div k)]))) \<and>
           independence_factor Archan = 5"
proof -
  let ?degs = "map (\<lambda>j. if categories d ! j = Broker \<or> categories d ! j = App_lib then 0
                     else int (card {i. i < dsm_size d \<and> categories d ! i \<noteq> Framework
                                  \<and> categories d ! j \<noteq> Framework \<and> 0 < dependency_matrix d ! i ! j}))
                    [0..<dsm_size d]"
  let ?mx = "Max (set ?degs)"
  have "length ?degs = dsm_size d" by (simp only: length_map length_upt diff_zero)
  with n have "length ?degs \<noteq> 0" by arith
  then have ne: "?degs \<noteq> []" unfolding length_0_conv .
  have deg: "and_then (common_counts d) (common_exempt d) = Inr ?degs"
    by (rule common_in_degrees [OF wf])
  have mx: "max_list ?degs = Inr ?mx" by (rule max_list_Max [OF ne])
  have "?mx \<in> set ?degs" using ne by (intro Max_in) (simp_all only: List.finite_set set_empty not_False_eq_True)
  from index_first [OF this] obtain q
    where q: "index ?degs ?mx = Inr q" "q < length ?degs" "?degs ! q = ?mx" "\<forall>p<q. ?degs ! p \<noteq> ?mx"
    by blast
  have qn: "q < dsm_size d" using q(2) \<open>length ?degs = dsm_size d\<close> by simp
  then have ent: "getitem (entities d) q = Inr (entities d ! q)"
    using wf by (simp add: wf_dsm_def)
  have split: "and_then (common_counts d) (\<lambda>c. and_then (common_exempt d c) f) = f ?degs" for f :: "int list \<Rightarrow> error + bool \<times> 'z"
    using deg by (cases "common_counts d") auto
  have new: "check_least_common_mechanism fmt d k =
             (if real_of_int ?mx \<le> real (dsm_size d) / real_of_int k then Inr (True, [])
              else Inr (False,
                ''  Dependencies to '' @ entities d ! q @ '' ('' @ str_int ?mx
                  @ '') > matrix size ('' @ str_nat (dsm_size d)
                  @ '') / independence factor ('' @ str_int k @ '') = ''
                  @ fmt (real (dsm_size d) / real_of_int k)))"
    unfolding check_least_common_mechanism_def split using k mx q(1) ent
    by (simp add: common_message_def)
  have dflt: "call (LEAST_COMMON_MECHANISM fmt rc) d [] =
             (case check_least_common_mechanism fmt d 5 of
                Inl e \<Rightarrow> Inl e
              | Inr (b, msg) \<Rightarrow> Inr (if b then PASSED else FAILED, msg))"
    unfolding LEAST_COMMON_MECHANISM_def by (rule criterion_default_keyword)
  have old: "Archan_check_least_common_mechanism self d =
                (if real_of_int ?mx \<le> real (dsm_size d) / real_of_int k then Inr (True, [])
                 else Inr (False,
                   [''max number of dependencies to a module: '' @ str_int ?mx,
                    ''max number of expected dependencies: '' @ str_int (int (dsm_size d) div k)]))"
    if "independence_factor self = k"
    unfolding Archan_check_least_common_mechanism_def split using k mx that
    by (simp add: floor_bound)
  have five: "independence_factor Archan = 5" by (simp add: Archan_def)
  from new dflt old five q(3,4) qn show ?thesis by blast
qed

text \<open>
  Three application modules and a broker. Two modules depend on the third, \<open>c.z\<close>, and
  all three on the broker, whose in-degree 3 is set to 0. Against the factor 3 the
  in-degree 2 of \<open>c.z\<close> exceeds 4 / 3, printed here as \<open>1.33\<close>; the older check, with
  the same factor, prints 2 and the floor 1.
\<close>

theorem least_common_mechanism_bound_witness:
  "wf_dsm \<lparr>categories = [App_module, App_module, App_module, Broker],
           entities = [''a.x'', ''b.y'', ''c.z'', ''hub.w''],
           dependency_matrix = [[0, 0, 1, 1], [0, 0, 1, 1], [0, 0, 0, 1], [0, 0, 0, 0]],
           dsm_size = 4\<rparr> \<and>
   check_least_common_mechanism (\<lambda>r. ''1.33'')
     \<lparr>categories = [App_module, App_module, App_module, Broker],
      entities = [''a.x'', ''b.y'', ''c.z'', ''hub.w''],
      dependency_matrix = [[0, 0, 1, 1], [0, 0, 1, 1], [0, 0, 0, 1], [0, 0, 0, 0]],
      dsm_size = 4\<rparr> 3 =
     Inr (False, ''  Dependencies to c.z (2) > matrix size (4) / independence factor (3) = 1.33'') \<and>
   Archan_check_least_common_mechanism (Archan\<lparr>independence_factor := 3\<rparr>)
     \<lparr>categories = [App_module, App_module, App_module, Broker],
      entities = [''a.x'', ''b.y'', ''c.z'', ''hub.w''],
      dependency_matrix = [[0, 0, 1, 1], [0, 0, 1, 1], [0, 0, 0, 1], [0, 0, 0, 0]],
      dsm_size = 4\<rparr> =
     Inr (False, [''max number of dependencies to a module: 2'',
                  ''max number of expected dependencies: 1'']) \<and>
   call (LEAST_COMMON_MECHANISM (\<lambda>r. ''0.8'') (\<lambda>p. []))
     \<lparr>categories = [App_module, App_module, App_module, Broker],
      entities = [''a.x'', ''b.y'', ''c.z'', ''hub.w''],
      dependency_matrix = [[0, 0, 1, 1], [0, 0, 1, 1], [0, 0, 0, 1], [0, 0, 0, 0]],
      dsm_size = 4\<rparr> [] =
     Inr (0, ''  Dependencies to c.z (2) > matrix size (4) / independence factor (5) = 0.8'')"
proof -
  let ?D = "\<lparr>categories = [App_module, App_module, App_module, Broker],
           entities = [''a.x'', ''b.y'', ''c.z'', ''hub.w''],
           dependency_matrix = [[0, 0, 1, 1], [0, 0, 1, 1], [0, 0, 0, 1], [0, 0, 0, 0]],
           dsm_size = 4\<rparr>"
  have wf: "wf_dsm ?D" by (simp add: wf_dsm_def)
  have n: "0 < dsm_size ?D" by simp
  have k: "0 < (3::int)" by simp
  have r: "check_least_common_mechanism (\<lambda>r. ''1.33'') ?D 3 =
     Inr (False, ''  Dependencies to c.z (2) > matrix size (4) / independence factor (3) = 1.33'')"
    by code_simp
  have r5: "check_least_common_mechanism (\<lambda>r. ''0.8'') ?D 5 =
     Inr (False, ''  Dependencies to c.z (2) > matrix size (4) / independence factor (5) = 0.8'')"
    by code_simp
  have o: "Archan_check_least_common_mechanism (Archan\<lparr>independence_factor := 3\<rparr>) ?D =
     Inr (False, [''max number of dependencies to a module: 2'',
                  ''max number of expected dependencies: 1''])"
    by code_simp
  from least_common_mechanism_bound [OF wf n k, of "\<lambda>r. ''0.8''" "\<lambda>p. []" "Archan\<lparr>independence_factor := 3\<rparr>"]
  have "call (LEAST_COMMON_MECHANISM (\<lambda>r. ''0.8'') (\<lambda>p. [])) ?D [] =
             (case check_least_common_mechanism (\<lambda>r. ''0.8'') ?D 5 of
                Inl e \<Rightarrow> Inl e
              | Inr (b, msg) \<Rightarrow> Inr (if b then PASSED else FAILED, msg))"
    by blast
  with r5 have c: "call (LEAST_COMMON_MECHANISM (\<lambda>r. ''0.8'') (\<lambda>p. [])) ?D [] =
     Inr (0, ''  Dependencies to c.z (2) > matrix size (4) / independence factor (5) = 0.8'')"
    by (simp add: FAILED_def)
  from wf r o c show ?thesis by simp
qed

text \<open>
  Claim C6 as stated fails on \<open>checker.py\<close>: for the same matrix a new \<open>Archan\<close>
  (factor 5) fails the check and prints the maximum 2 and the bound 0, but neither the
  name of the entity \<open>c.z\<close>, nor N = 4, nor the factor 5.
\<close>

theorem least_common_mechanism_counterexample:
  "Archan_check_least_common_mechanism Archan
     \<lparr>categories = [App_module, App_module, App_module, Broker],
      entities = [''a.x'', ''b.y'', ''c.z'', ''hub.w''],
      dependency_matrix = [[0, 0, 1, 1], [0, 0, 1, 1], [0, 0, 0, 1], [0, 0, 0, 0]],
      dsm_size = 4\<rparr> =
     Inr (False, [''max number of dependencies to a module: 2'',
                  ''max number of expected dependencies: 0''])"
  by code_simp

subsection \<open>Claims about the sign of the observed cells\<close>

lemma positive_cells_fields [simp]:
  "categories (positive_cells d) = categories d"
  "entities (positive_cells d) = entities d"
  "dsm_size (positive_cells d) = dsm_size d"
  by (simp_all add: positive_cells_def)

lemma getitem_map: "getitem (map f xs) i = map_sum id f (getitem xs i)"
  by (simp add: getitem_def)

lemma getitem2_positive_cells:
  "getitem2 (dependency_matrix (positive_cells d)) i j =
   map_sum id (\<lambda>v. if 0 < v then 1 else 0) (getitem2 (dependency_matrix d) i j)"
  by (simp add: positive_cells_def getitem2_def getitem_def)

lemma positive_indicator: "0 < (if 0 < (v::int) then 1 else 0 :: int) \<longleftrightarrow> 0 < v"
  by simp

lemma and_then_map_sum: "and_then (map_sum id f r) g = and_then r (\<lambda>x. g (f x))"
  by (cases r) simp_all

lemma economy_body_positive_cells:
  "economy_body (positive_cells d) i j c = economy_body d i j c"
  by (simp add: economy_body_def getitem2_positive_cells and_then_map_sum positive_indicator cong: if_cong)

lemma common_body_positive_cells:
  "common_body (positive_cells d) j i s = common_body d j i s"
  by (simp add: common_body_def getitem2_positive_cells and_then_map_sum positive_indicator cong: if_cong)

lemma layered_body_positive_cells:
  "layered_body (positive_cells d) i j s = layered_body d i j s"
  by (simp add: layered_body_def getitem2_positive_cells and_then_map_sum positive_indicator cong: if_cong)

lemma generate_positive_cells:
  "generate_mediation_matrix (positive_cells d) = generate_mediation_matrix d"
  by (simp add: generate_mediation_matrix_def)

lemma untolerated_positive_cells:
  "rel_sum (=) (\<lambda>s t. fst s = fst t)
     (untolerated (positive_cells d) med i j s) (untolerated d med i j t)"
  by (cases "getitem (entities d) i"; cases "getitem (entities d) j";
      cases "getitem2 (dependency_matrix d) i j"; cases "getitem2 med i j")
     (simp_all add: untolerated_def getitem2_positive_cells)

lemma compliance_body_positive_cells:
  assumes "fst s = fst t"
  shows "rel_sum (=) (\<lambda>s t. fst s = fst t)
     (compliance_body (positive_cells d) med i j s) (compliance_body d med i j t)"
proof (cases "getitem2 med i j")
  case (Inl e)
  then show ?thesis by (simp add: compliance_body_def)
next
  case (Inr e)
  show ?thesis
  proof (cases "getitem2 (dependency_matrix d) i j")
    case (Inl x)
    with Inr assms show ?thesis by (simp add: compliance_body_def getitem2_positive_cells)
  next
    case v: (Inr v)
    show ?thesis
      using Inr v assms untolerated_positive_cells [of d med i j s t]
      by (simp add: compliance_body_def getitem2_positive_cells)
  qed
qed


lemma compliance_loop_positive_cells:
  "rel_sum (=) (\<lambda>s t. fst s = fst t)
     (for_each is (\<lambda>i. for_each js (compliance_body (positive_cells d) med i)) (False, []))
     (for_each is (\<lambda>i. for_each js (compliance_body d med i)) (False, []))"
proof (rule for_each_rel)
  show "fst (False, []) = fst (False, [])" by simp
next
  fix i and s t :: "bool \<times> string list"
  assume "fst s = fst t"
  then show "rel_sum (=) (\<lambda>s t. fst s = fst t)
     (for_each js (compliance_body (positive_cells d) med i) s)
     (for_each js (compliance_body d med i) t)"
    by (rule for_each_rel) (rule compliance_body_positive_cells)
qed

lemma matrices_compliance_positive_cells:
  "map_sum id fst (matrices_compliance (positive_cells d) med) =
   map_sum id fst (matrices_compliance d med)"
proof (cases "getitem (dependency_matrix d) 0")
  case (Inl e)
  then show ?thesis
    by (simp add: matrices_compliance_def positive_cells_def getitem_map)
next
  case row0: (Inr row0)
  show ?thesis
  proof (cases "getitem med 0")
    case (Inl e)
    with row0 show ?thesis
      by (simp add: matrices_compliance_def positive_cells_def getitem_map)
  next
    case med0: (Inr med0)
    let ?new = "for_each [0..<length (dependency_matrix d)] (\<lambda>i.
         for_each [0..<length row0] (compliance_body (positive_cells d) med i)) (False, [])"
    let ?old = "for_each [0..<length (dependency_matrix d)] (\<lambda>i.
         for_each [0..<length row0] (compliance_body d med i)) (False, [])"
    let ?finish = "\<lambda>(discrepancy_found, message). Inr (\<not> discrepancy_found, join newline message)
         :: error + bool \<times> string"
    have rel: "rel_sum (=) (\<lambda>s t. fst s = fst t) ?new ?old"
      by (rule compliance_loop_positive_cells)
    have fin: "map_sum id fst (and_then ?new ?finish) = map_sum id fst (and_then ?old ?finish)"
      using rel by (cases ?new; cases ?old) (auto split: prod.splits)
    have new: "matrices_compliance (positive_cells d) med =
        (if length (dependency_matrix d) \<noteq> length med \<or> length row0 \<noteq> length med0
         then Inl (ArchanError ''Matrices are NOT compliant (number of rows/columns not equal)'')
         else and_then ?new ?finish)"
      using row0 med0
      by (simp add: matrices_compliance_def getitem_map [of _ "dependency_matrix d"]
            positive_cells_def [of d, symmetric] Let_def
          del: positive_cells_fields)
        (simp add: positive_cells_def getitem_map row0)
    have old: "matrices_compliance d med =
        (if length (dependency_matrix d) \<noteq> length med \<or> length row0 \<noteq> length med0
         then Inl (ArchanError ''Matrices are NOT compliant (number of rows/columns not equal)'')
         else and_then ?old ?finish)"
      using row0 med0 by (simp add: matrices_compliance_def Let_def)
    show ?thesis
    proof (cases "length (dependency_matrix d) \<noteq> length med \<or> length row0 \<noteq> length med0")
      case True
      then show ?thesis unfolding new old by (simp only: if_True)
    next
      case False
      then show ?thesis unfolding new old by (simp only: if_False fin)
    qed
  qed
qed

lemma check_complete_mediation_positive_cells:
  "map_sum id fst (check_complete_mediation (positive_cells d)) =
   map_sum id fst (check_complete_mediation d)"
  unfolding check_complete_mediation_def generate_positive_cells
  by (cases "generate_mediation_matrix d") (simp_all add: matrices_compliance_positive_cells)


text \<open>
  Claim C10. For every DependencyMatrix, whatever its shape, the outcome of complete
  mediation, economy of mechanism, least common mechanism and layered architecture (the
  boolean, or the exception raised) is the same for the matrix and for the matrix in
  which every positive cell is replaced by 1 and every other cell by 0.
\<close>

theorem checks_depend_on_positive_cells:
  "map_sum id fst (check_complete_mediation (positive_cells d)) =
     map_sum id fst (check_complete_mediation d) \<and>
   map_sum id fst (check_economy_of_mechanism (positive_cells d) k) =
     map_sum id fst (check_economy_of_mechanism d k) \<and>
   map_sum id fst (check_least_common_mechanism fmt (positive_cells d) k') =
     map_sum id fst (check_least_common_mechanism fmt d k') \<and>
   map_sum id fst (check_layered_architecture (positive_cells d)) =
     map_sum id fst (check_layered_architecture d)"
proof -
  have e: "economy_body (positive_cells d) = economy_body d"
    by (intro ext) (rule economy_body_positive_cells)
  have c: "common_body (positive_cells d) = common_body d"
    by (intro ext) (rule common_body_positive_cells)
  have l: "layered_body (positive_cells d) = layered_body d"
    by (intro ext) (rule layered_body_positive_cells)
  have "check_economy_of_mechanism (positive_cells d) k = check_economy_of_mechanism d k"
    by (simp add: check_economy_of_mechanism_def e cong: if_cong)
  moreover have "check_least_common_mechanism fmt (positive_cells d) k' =
      check_least_common_mechanism fmt d k'"
    by (simp add: check_least_common_mechanism_def common_counts_def common_exempt_def c cong: if_cong)
  moreover have "check_layered_architecture (positive_cells d) = check_layered_architecture d"
    by (simp add: check_layered_architecture_def l cong: if_cong)
  ultimately show ?thesis using check_complete_mediation_positive_cells [of d] by simp
qed

text \<open>
  A matrix with weights 3 and 7 and the same matrix with the weights replaced by 1: the
  forbidden dependency of the data entity on an application module fails complete
  mediation in both.
\<close>

theorem checks_depend_on_positive_cells_witness:
  "positive_cells \<lparr>categories = [App_module, Data], entities = [''a.x'', ''b.y''],
                   dependency_matrix = [[0, 3], [7, - 2]], dsm_size = 2\<rparr> =
     \<lparr>categories = [App_module, Data], entities = [''a.x'', ''b.y''],
      dependency_matrix = [[0, 1], [1, 0]], dsm_size = 2\<rparr> \<and>
   check_complete_mediation \<lparr>categories = [App_module, Data], entities = [''a.x'', ''b.y''],
                   dependency_matrix = [[0, 3], [7, - 2]], dsm_size = 2\<rparr> =
     Inr (False, ''  Untolerated dependency at 1:0 (b.y:a.x): 7 instead of 0'') \<and>
   map_sum id fst (check_complete_mediation
     \<lparr>categories = [App_module, Data], entities = [''a.x'', ''b.y''],
      dependency_matrix = [[0, 1], [1, 0]], dsm_size = 2\<rparr>) = Inr False"
proof -
  let ?D = "\<lparr>categories = [App_module, Data], entities = [''a.x'', ''b.y''],
                   dependency_matrix = [[0, 3], [7, - 2]], dsm_size = 2\<rparr>"
  have p: "positive_cells ?D = \<lparr>categories = [App_module, Data], entities = [''a.x'', ''b.y''],
      dependency_matrix = [[0, 1], [1, 0]], dsm_size = 2\<rparr>"
    by (simp add: positive_cells_def)
  have r: "check_complete_mediation ?D =
     Inr (False, ''  Untolerated dependency at 1:0 (b.y:a.x): 7 instead of 0'')"
    by code_simp
  from checks_depend_on_positive_cells [of ?D]
  have "map_sum id fst (check_complete_mediation (positive_cells ?D)) =
     map_sum id fst (check_complete_mediation ?D)" by blast
  with p r show ?thesis by simp
qed

end
